theory Spec2Isabelle
  imports Complex_Main "HOL-Library.AList"
begin

section \<open>Interactive figures of ray-optics: the embedding\<close>

text \<open>
  The two source files are \<^verbatim>\<open>src/rayoptics/mpl/interactivefigure.py\<close>
  (class \<^verbatim>\<open>InteractiveFigure\<close>, \<^verbatim>\<open>PanAction\<close>, \<^verbatim>\<open>ZoomBoxAction\<close>) and
  \<^verbatim>\<open>gui/mpl/paraxdgnfigure.py\<close> (class \<^verbatim>\<open>EditableLine\<close>, \<^verbatim>\<open>ParaxialDesignFigure\<close>).
  Python floats are modelled as \<^typ>\<open>real\<close>: comparisons and the arithmetic of the
  bounding boxes are those of the real numbers. Exceptions are values of \<open>py_error\<close>.
\<close>

datatype py_error = IndexError | KeyError | TypeError | ValueError | AttributeError

subsection \<open>Artists and their styles\<close>

type_synonym rgba = "real \<times> real \<times> real \<times> real"

datatype color = ColorName string | ColorRGBA rgba

text \<open>
  The attribute \<^verbatim>\<open>unhilite\<close> of an artist holds the tuple saved by \<^verbatim>\<open>highlight\<close>:
  \<^verbatim>\<open>(fc, ec, lw)\<close> for a polygon, \<^verbatim>\<open>(c, lw)\<close> for a polyline or a vertex.
\<close>

datatype saved_style = Saved3 rgba rgba real | Saved2 color real

datatype artist_kind = Polygon | Polyline | Vertex

text \<open>
  One record for the artists the figure creates. \<open>kind\<close> says which of
  \<^verbatim>\<open>create_polygon\<close>, \<^verbatim>\<open>create_polyline\<close>, \<^verbatim>\<open>create_vertex\<close> made the artist, and so
  which pair of closures its attributes \<^verbatim>\<open>highlight\<close> and \<^verbatim>\<open>unhighlight\<close> hold.
  \<open>facecolor\<close> and \<open>edgecolor\<close> are read and written for polygons only, \<open>color\<close>
  for lines only. \<open>hilite_color\<close> is the variable of that name captured by the closures
  of a line. \<open>unhilite = None\<close> stands for the attribute being \<^verbatim>\<open>None\<close> or not yet set.
  \<open>shape\<close> is the pair \<^verbatim>\<open>(shape, key)\<close> attached by \<^verbatim>\<open>update_patches\<close>,
  \<open>picker\<close> the tolerance given by \<^verbatim>\<open>set_picker\<close>.
\<close>

record artist =
  kind :: artist_kind
  facecolor :: rgba
  edgecolor :: rgba
  color :: color
  linewidth :: real
  hilite_color :: color
  unhilite :: "saved_style option"
  zorder :: real
  picker :: "real option"
  shape :: "(nat \<times> string) option"

text \<open>The closures of \<^verbatim>\<open>create_polygon\<close>.\<close>

definition highlight_polygon :: "artist \<Rightarrow> artist" where
  "highlight_polygon p =
     (let fc = facecolor p; ec = edgecolor p; lw = linewidth p;
          p1 = p\<lparr>unhilite := Some (Saved3 fc ec lw)\<rparr>;
          alpha = snd (snd (snd fc)) + 0.5;
          alpha = (if alpha > 1.0 then alpha - 1.0 else alpha)
      in p1\<lparr>facecolor := (fst fc, fst (snd fc), fst (snd (snd fc)), alpha)\<rparr>)"

definition unhighlight_polygon :: "artist \<Rightarrow> py_error + artist" where
  "unhighlight_polygon p =
     (case unhilite p of
        None \<Rightarrow> Inl TypeError
      | Some (Saved2 c lw) \<Rightarrow> Inl ValueError
      | Some (Saved3 fc ec lw) \<Rightarrow>
          Inr (p\<lparr>facecolor := fc, edgecolor := ec, linewidth := lw, unhilite := None\<rparr>))"

text \<open>The closures of \<^verbatim>\<open>create_polyline\<close>.\<close>

definition highlight_polyline :: "artist \<Rightarrow> artist" where
  "highlight_polyline p =
     (let lw = linewidth p; c = color p;
          p1 = p\<lparr>unhilite := Some (Saved2 c lw)\<rparr>;
          p2 = p1\<lparr>linewidth := 2\<rparr>
      in p2\<lparr>color := hilite_color p\<rparr>)"

definition unhighlight_polyline :: "artist \<Rightarrow> py_error + artist" where
  "unhighlight_polyline p =
     (case unhilite p of
        None \<Rightarrow> Inl TypeError
      | Some (Saved3 fc ec lw) \<Rightarrow> Inl ValueError
      | Some (Saved2 c lw) \<Rightarrow>
          Inr (p\<lparr>linewidth := lw, color := c, unhilite := None\<rparr>))"

text \<open>The closures of \<^verbatim>\<open>create_vertex\<close>.\<close>

definition highlight_vertex :: "artist \<Rightarrow> artist" where
  "highlight_vertex p =
     (let lw = linewidth p; c = color p;
          p1 = p\<lparr>unhilite := Some (Saved2 c lw)\<rparr>;
          p2 = p1\<lparr>linewidth := 2\<rparr>
      in p2\<lparr>color := hilite_color p\<rparr>)"

definition unhighlight_vertex :: "artist \<Rightarrow> py_error + artist" where
  "unhighlight_vertex p =
     (case unhilite p of
        None \<Rightarrow> Inl TypeError
      | Some (Saved3 fc ec lw) \<Rightarrow> Inl ValueError
      | Some (Saved2 c lw) \<Rightarrow>
          Inr (p\<lparr>linewidth := lw, color := c, unhilite := None\<rparr>))"

text \<open>
  \<^verbatim>\<open>p.highlight(p)\<close> and \<^verbatim>\<open>p.unhighlight(p)\<close>: the call goes to the closures the
  artist was created with.
\<close>

definition highlight :: "artist \<Rightarrow> artist" where
  "highlight p =
     (case kind p of
        Polygon \<Rightarrow> highlight_polygon p
      | Polyline \<Rightarrow> highlight_polyline p
      | Vertex \<Rightarrow> highlight_vertex p)"

definition unhighlight :: "artist \<Rightarrow> py_error + artist" where
  "unhighlight p =
     (case kind p of
        Polygon \<Rightarrow> unhighlight_polygon p
      | Polyline \<Rightarrow> unhighlight_polyline p
      | Vertex \<Rightarrow> unhighlight_vertex p)"

text \<open>
  The three constructors. \<open>fig_linewidth\<close> is \<^verbatim>\<open>self.linewidth\<close>, \<open>lw\<close> the keyword
  \<^verbatim>\<open>linewidth\<close> when given, \<open>fill_color\<close> the result of \<^verbatim>\<open>rgb2mpl.rgb2mpl\<close> (a module
  that is not part of the sources), \<open>hilite\<close> the keyword \<^verbatim>\<open>hilite\<close> when given,
  \<open>c\<close> and \<open>z\<close> the colour and z-order the toolkit gives the new artist.
  The edge colour \<^verbatim>\<open>'black'\<close> is (0, 0, 0, 1).
\<close>

definition create_polygon :: "real \<Rightarrow> rgba \<Rightarrow> real option \<Rightarrow> real \<Rightarrow> artist" where
  "create_polygon fig_linewidth fill_color lw z =
     \<lparr>kind = Polygon, facecolor = fill_color, edgecolor = (0, 0, 0, 1),
      color = ColorRGBA fill_color,
      linewidth = (case lw of None \<Rightarrow> fig_linewidth | Some w \<Rightarrow> w),
      hilite_color = ColorName ''red'', unhilite = None, zorder = z, picker = None, shape = None\<rparr>"

definition create_polyline :: "real \<Rightarrow> color \<Rightarrow> color option \<Rightarrow> real option \<Rightarrow> real \<Rightarrow> artist" where
  "create_polyline fig_linewidth c hilite lw z =
     \<lparr>kind = Polyline, facecolor = (0, 0, 0, 0), edgecolor = (0, 0, 0, 0),
      color = c,
      linewidth = (case lw of None \<Rightarrow> fig_linewidth | Some w \<Rightarrow> w),
      hilite_color = (case hilite of None \<Rightarrow> ColorName ''red'' | Some h \<Rightarrow> h),
      unhilite = None, zorder = z, picker = None, shape = None\<rparr>"

definition create_vertex :: "real \<Rightarrow> color \<Rightarrow> color option \<Rightarrow> real option \<Rightarrow> real \<Rightarrow> artist" where
  "create_vertex fig_linewidth c hilite lw z =
     \<lparr>kind = Vertex, facecolor = (0, 0, 0, 0), edgecolor = (0, 0, 0, 0),
      color = c,
      linewidth = (case lw of None \<Rightarrow> fig_linewidth | Some w \<Rightarrow> w),
      hilite_color = (case hilite of None \<Rightarrow> ColorName ''red'' | Some h \<Rightarrow> h),
      unhilite = None, zorder = z, picker = None, shape = None\<rparr>"

subsection \<open>The toolkit: events, axes, canvas\<close>

text \<open>
  A mouse event of the toolkit: the cursor in display pixels (\<^verbatim>\<open>event.x\<close>,
  \<^verbatim>\<open>event.y\<close>), in data coordinates (\<^verbatim>\<open>event.xdata\<close>, \<^verbatim>\<open>event.ydata\<close>), the
  button and the key held.
\<close>

record event =
  ev_x :: real
  ev_y :: real
  xdata :: real
  ydata :: real
  button :: nat
  ev_key :: "string option"

text \<open>A bounding box is the 2 by 2 array \<^verbatim>\<open>[[x0, y0], [x1, y1]]\<close>.\<close>

type_synonym bbox = "(real \<times> real) \<times> (real \<times> real)"

text \<open>
  The part of the toolkit's axes the figure reads: the limits its \<^verbatim>\<open>get_xbound\<close> and
  \<^verbatim>\<open>get_ybound\<close> report and the artists added to the axes (\<^verbatim>\<open>get_children\<close>), as
  references into the store of artists.
\<close>

record axes =
  xlim :: "real \<times> real"
  ylim :: "real \<times> real"
  children :: "nat list"

text \<open>\<^verbatim>\<open>get_xbound\<close> and \<^verbatim>\<open>get_ybound\<close> return the limits in increasing order.\<close>

definition get_xbound :: "axes \<Rightarrow> real \<times> real" where
  "get_xbound a = (min (fst (xlim a)) (snd (xlim a)), max (fst (xlim a)) (snd (xlim a)))"

definition get_ybound :: "axes \<Rightarrow> real \<times> real" where
  "get_ybound a = (min (fst (ylim a)) (snd (ylim a)), max (fst (ylim a)) (snd (ylim a)))"

text \<open>The handlers a figure connects to the canvas; \<open>H_other\<close> is any other callable.\<close>

datatype handler = H_on_press | H_on_release | H_on_motion | H_other nat

text \<open>
  The canvas: the callbacks connected by \<^verbatim>\<open>mpl_connect\<close>, each under the connection id
  it returned, and the number of redraws asked for (\<^verbatim>\<open>draw\<close>, \<^verbatim>\<open>draw_idle\<close>).
\<close>

record canvas =
  next_cid :: nat
  callbacks :: "(nat \<times> string \<times> handler) list"
  draws :: nat

definition mpl_connect :: "string \<Rightarrow> handler \<Rightarrow> canvas \<Rightarrow> nat \<times> canvas" where
  "mpl_connect ev h c =
     (next_cid c, c\<lparr>next_cid := Suc (next_cid c), callbacks := callbacks c @ [(next_cid c, ev, h)]\<rparr>)"

definition mpl_disconnect :: "nat \<Rightarrow> canvas \<Rightarrow> canvas" where
  "mpl_disconnect cid c = c\<lparr>callbacks := filter (\<lambda>e. fst e \<noteq> cid) (callbacks c)\<rparr>"

definition draw :: "canvas \<Rightarrow> canvas" where
  "draw c = c\<lparr>draws := Suc (draws c)\<rparr>"

subsection \<open>The state of an InteractiveFigure\<close>

text \<open>
  \<^verbatim>\<open>SelectInfo(artist, info)\<close>: a reference to an artist and the details returned by
  \<^verbatim>\<open>contains\<close>; of the dictionary \<^verbatim>\<open>info\<close> the entry \<^verbatim>\<open>'ind'\<close> is kept, when present.
\<close>

type_synonym info = "nat list option"

datatype select_info = SelectInfo (artist_of: nat) (info_of: info)

text \<open>
  The attribute \<^verbatim>\<open>do_action\<close> holds one of three functions: the method
  \<^verbatim>\<open>do_shape_action\<close> (the default), the closure of \<^verbatim>\<open>register_action\<close> over a
  \<^verbatim>\<open>PanAction\<close> (set by \<^verbatim>\<open>register_pan\<close>), or the closure of \<^verbatim>\<open>register_zoom_box\<close> that
  does nothing.
\<close>

datatype action_mode = ShapeAction | PanCommand | ZoomBoxIdle

text \<open>
  The figure. \<open>'x\<close> is the state outside the figure that the callbacks given to it work on
  (the optical model and its shapes). \<open>store\<close> is the heap of artist objects; \<open>artists\<close>,
  the children of the axes, \<open>hilited\<close> and \<open>selected\<close> refer into it. \<open>ax = None\<close>
  stands for the attribute \<^verbatim>\<open>ax\<close> not being set (before the first \<^verbatim>\<open>plot\<close>),
  \<open>save_do_scale_bounds = None\<close> for that attribute not being set (before the first press),
  \<open>view_bbox = None\<close> for \<^verbatim>\<open>None\<close>. \<open>pan_button\<close> is the attribute
  \<^verbatim>\<open>_button_pressed\<close> of the registered \<^verbatim>\<open>PanAction\<close>, \<open>saved_events\<close> the attribute of
  that name of the \<^verbatim>\<open>ZoomBoxAction\<close>, and \<open>rubber_box\<close> says whether its
  \<^verbatim>\<open>RectangleSelector\<close> is connected. \<open>header\<close>, \<open>x_label\<close> and \<open>y_label\<close>
  are \<open>None\<close> when the figure has no attribute of that name.
\<close>

record 'x figure =
  fig_linewidth :: real
  do_draw_frame :: bool
  do_draw_axes :: bool
  header :: "string option"
  x_label :: "string option"
  y_label :: "string option"
  aspect :: string
  hilited :: "select_info option"
  selected :: "select_info option"
  do_scale_bounds :: bool
  save_do_scale_bounds :: "bool option"
  do_action :: action_mode
  event_dict :: "(string \<times> handler) list"
  callback_ids :: "nat list option"
  on_finished :: "('x \<Rightarrow> 'x) option"
  view_bbox :: "bbox option"
  sys_bbox :: bbox
  oversize_factor :: real
  artists :: "nat list"
  store :: "nat \<Rightarrow> artist"
  ax :: "axes option"
  canvas :: canvas
  pan_button :: "nat option"
  saved_events :: "(string \<times> handler) list option"
  rubber_box :: bool
  ext :: 'x

text \<open>
  What the figure calls and the sources do not hold: \<^verbatim>\<open>artist.contains(event)\<close> of the
  toolkit, by artist; \<^verbatim>\<open>shape.actions[event_key]\<close> of the shape objects, by shape and
  key, \<open>None\<close> when the key is missing (the \<^verbatim>\<open>KeyError\<close> the figure catches), taking the
  handle, the event and the selection details; \<^verbatim>\<open>start_pan\<close>, \<^verbatim>\<open>drag_pan\<close> and
  \<^verbatim>\<open>end_pan\<close> of the axes; \<^verbatim>\<open>util.scale_bounds\<close>. The actions of the shapes are taken to
  work on the state outside the figure. The other fields are the calls \<^verbatim>\<open>plot\<close> makes
  on the toolkit's axes: \<^verbatim>\<open>add_subplot(1, 1, 1, aspect=...)\<close>,
  \<^verbatim>\<open>set_aspect(..., adjustable='datalim')\<close>, \<^verbatim>\<open>set_xlim\<close>, \<^verbatim>\<open>set_ylim\<close>,
  \<^verbatim>\<open>set_axis_on\<close>, \<^verbatim>\<open>set_axis_off\<close>, the figure's \<^verbatim>\<open>tight_layout(pad=0.)\<close>,
  \<^verbatim>\<open>set_facecolor(rgb2mpl.backgrnd_color)\<close>, \<^verbatim>\<open>grid\<close>, \<^verbatim>\<open>axvline\<close>, \<^verbatim>\<open>axhline\<close>,
  \<^verbatim>\<open>set_title\<close>, \<^verbatim>\<open>set_xlabel\<close> and \<^verbatim>\<open>set_ylabel\<close>. What limits the axes end with
  after them is the toolkit's business (it fits them to the aspect and the layout, and
  widens an empty range), so each is a function on the axes that the model does not look
  into.
\<close>

record 'x env =
  contains :: "nat \<Rightarrow> event \<Rightarrow> bool \<times> info"
  shape_actions :: "nat \<Rightarrow> string \<Rightarrow> (string \<Rightarrow> event \<Rightarrow> info \<Rightarrow> 'x \<Rightarrow> 'x) option"
  start_pan :: "real \<Rightarrow> real \<Rightarrow> nat \<Rightarrow> axes \<Rightarrow> axes"
  drag_pan :: "nat \<Rightarrow> string option \<Rightarrow> real \<Rightarrow> real \<Rightarrow> axes \<Rightarrow> axes"
  end_pan :: "axes \<Rightarrow> axes"
  scale_bounds :: "bbox \<Rightarrow> real \<Rightarrow> bbox"
  add_subplot :: "string \<Rightarrow> axes"
  set_aspect :: "string \<Rightarrow> axes \<Rightarrow> axes"
  set_xlim :: "real \<Rightarrow> real \<Rightarrow> axes \<Rightarrow> axes"
  set_ylim :: "real \<Rightarrow> real \<Rightarrow> axes \<Rightarrow> axes"
  set_axis_on :: "axes \<Rightarrow> axes"
  set_axis_off :: "axes \<Rightarrow> axes"
  tight_layout :: "axes \<Rightarrow> axes"
  ax_set_facecolor :: "axes \<Rightarrow> axes"
  grid :: "bool \<Rightarrow> axes \<Rightarrow> axes"
  axvline :: "real \<Rightarrow> axes \<Rightarrow> axes"
  axhline :: "real \<Rightarrow> axes \<Rightarrow> axes"
  set_title :: "string \<Rightarrow> axes \<Rightarrow> axes"
  set_xlabel :: "string \<Rightarrow> axes \<Rightarrow> axes"
  set_ylabel :: "string \<Rightarrow> axes \<Rightarrow> axes"

text \<open>
  A method returns the state it leaves and the exception it raised, if any: what it wrote
  before raising stays written.
\<close>

type_synonym 'x outcome = "'x figure \<times> py_error option"

definition then_do :: "'x outcome \<Rightarrow> ('x figure \<Rightarrow> 'x outcome) \<Rightarrow> 'x outcome" where
  "then_do r g = (case snd r of None \<Rightarrow> g (fst r) | Some e \<Rightarrow> r)"

definition ok :: "'x figure \<Rightarrow> 'x outcome" where
  "ok f = (f, None)"

definition raise :: "py_error \<Rightarrow> 'x figure \<Rightarrow> 'x outcome" where
  "raise e f = (f, Some e)"

subsection \<open>Connecting and disconnecting events\<close>

text \<open>
  A dictionary is an association list in insertion order; \<^const>\<open>AList.update\<close> replaces
  the value of a key in place and appends a new key, as a Python \<^verbatim>\<open>dict\<close> does.
\<close>

definition default_actions :: "(string \<times> handler) list" where
  "default_actions =
     [(''button_press_event'', H_on_press),
      (''button_release_event'', H_on_release),
      (''motion_notify_event'', H_on_motion)]"

fun connect_loop :: "(string \<times> handler) list \<Rightarrow> 'x figure \<Rightarrow> 'x figure" where
  "connect_loop [] f = f"
| "connect_loop ((ev, action) # rest) f =
     (let f1 = f\<lparr>event_dict := AList.update ev action (event_dict f)\<rparr>;
          (cid, c) = mpl_connect ev action (canvas f1);
          f2 = f1\<lparr>canvas := c\<rparr>;
          f3 = f2\<lparr>callback_ids := map_option (\<lambda>ids. ids @ [cid]) (callback_ids f2)\<rparr>
      in connect_loop rest f3)"

definition connect_events :: "(string \<times> handler) list option \<Rightarrow> 'x figure \<Rightarrow> 'x figure" where
  "connect_events action_dict f =
     (let action_dict = (case action_dict of None \<Rightarrow> default_actions | Some d \<Rightarrow> d);
          f1 = f\<lparr>callback_ids := Some []\<rparr>
      in connect_loop action_dict f1)"

text \<open>
  \<^verbatim>\<open>disconnect_events\<close> iterates over \<^verbatim>\<open>self.callback_ids\<close>, which is \<^verbatim>\<open>None\<close> after
  a disconnect: the loop then raises before anything is written.
\<close>

definition disconnect_events ::
  "'x figure \<Rightarrow> py_error + ((string \<times> handler) list \<times> 'x figure)" where
  "disconnect_events f =
     (case callback_ids f of
        None \<Rightarrow> Inl TypeError
      | Some ids \<Rightarrow>
          (let f1 = f\<lparr>canvas := fold mpl_disconnect ids (canvas f)\<rparr>;
               f2 = f1\<lparr>callback_ids := None\<rparr>;
               event_dict0 = event_dict f2;
               f3 = f2\<lparr>event_dict := []\<rparr>
           in Inr (event_dict0, f3)))"

definition action_complete :: "'x figure \<Rightarrow> 'x figure" where
  "action_complete f =
     (case on_finished f of
        None \<Rightarrow> f
      | Some g \<Rightarrow> (f\<lparr>ext := g (ext f)\<rparr>)\<lparr>on_finished := None\<rparr>)"

definition register_pan :: "('x \<Rightarrow> 'x) option \<Rightarrow> 'x figure \<Rightarrow> 'x figure" where
  "register_pan fin f = f\<lparr>pan_button := None, do_action := PanCommand, on_finished := fin\<rparr>"

text \<open>
  \<^verbatim>\<open>register_zoom_box\<close> builds a \<^verbatim>\<open>ZoomBoxAction\<close>, whose constructor disconnects the
  figure's events, keeps the returned dictionary and connects a \<^verbatim>\<open>RectangleSelector\<close>.
\<close>

definition register_zoom_box :: "('x \<Rightarrow> 'x) option \<Rightarrow> 'x figure \<Rightarrow> 'x outcome" where
  "register_zoom_box fin f =
     (case disconnect_events f of
        Inl e \<Rightarrow> raise e f
      | Inr (evs, f1) \<Rightarrow>
          (case ax f1 of
             None \<Rightarrow> raise AttributeError (f1\<lparr>saved_events := Some evs\<rparr>)
           | Some a \<Rightarrow>
               ok (f1\<lparr>saved_events := Some evs, rubber_box := True,
                       do_action := ZoomBoxIdle, on_finished := fin\<rparr>)))"

subsection \<open>The view bounding box\<close>

definition update_axis_limits :: "'x env \<Rightarrow> bbox option \<Rightarrow> 'x figure \<Rightarrow> 'x outcome" where
  "update_axis_limits tk bbox f =
     (case ax f of
        None \<Rightarrow> raise AttributeError f
      | Some a \<Rightarrow>
          (case bbox of
             None \<Rightarrow> raise TypeError f
           | Some b \<Rightarrow>
               (let a1 = set_xlim tk (fst (fst b)) (fst (snd b)) a;
                    a2 = set_ylim tk (snd (fst b)) (snd (snd b)) a1
                in ok (f\<lparr>ax := Some a2\<rparr>))))"

definition set_view_bbox :: "'x env \<Rightarrow> bbox option \<Rightarrow> 'x figure \<Rightarrow> 'x outcome" where
  "set_view_bbox tk bbox f =
     (let f1 = f\<lparr>view_bbox := bbox\<rparr> in update_axis_limits tk (view_bbox f1) f1)"

text \<open>
  \<^verbatim>\<open>draw_frame\<close> and \<^verbatim>\<open>draw_axes\<close> are called by \<^verbatim>\<open>plot\<close> only, on the axes it has
  just cleared or created; they are functions of those axes. \<^verbatim>\<open>draw_axes\<close> is given
  the attributes \<^verbatim>\<open>header\<close>, \<^verbatim>\<open>x_label\<close> and \<^verbatim>\<open>y_label\<close> of the figure, where it
  has them.
\<close>

definition draw_frame :: "'x env \<Rightarrow> bool \<Rightarrow> axes \<Rightarrow> axes" where
  "draw_frame tk draw_it a =
     (if draw_it then set_axis_on tk a
      else tight_layout tk (set_axis_off tk a))"

definition draw_axes ::
  "'x env \<Rightarrow> string option \<Rightarrow> string option \<Rightarrow> string option \<Rightarrow> bool \<Rightarrow> axes \<Rightarrow> axes" where
  "draw_axes tk hdr xl yl draw_them a =
     (if draw_them
      then (let a1 = grid tk True a;
                a2 = axvline tk 0 a1;
                a3 = axhline tk 0 a2;
                a4 = (case hdr of None \<Rightarrow> a3 | Some h \<Rightarrow> set_title tk h a3);
                a5 = (case xl of None \<Rightarrow> a4 | Some l \<Rightarrow> set_xlabel tk l a4)
            in (case yl of None \<Rightarrow> a5 | Some l \<Rightarrow> set_ylabel tk l a5))
      else grid tk False a)"

text \<open>
  \<^verbatim>\<open>plot\<close>: the axes are cleared (or created when the figure has none), every artist of
  \<^verbatim>\<open>self.artists\<close> gets the picker 5 and is added to the axes, the view box is replaced
  by the scaled system box when \<^verbatim>\<open>do_scale_bounds\<close> is set, the aspect is set, the
  corners of the view box are passed to \<^verbatim>\<open>set_xlim\<close> and \<^verbatim>\<open>set_ylim\<close>, the frame, the
  background and the axis decorations are drawn, the events are connected and a redraw is
  asked for.
\<close>

definition cla :: "axes \<Rightarrow> axes" where
  "cla a = a\<lparr>xlim := (0, 1), ylim := (0, 1), children := []\<rparr>"

fun add_artists :: "nat list \<Rightarrow> (nat \<Rightarrow> artist) \<times> axes \<Rightarrow> (nat \<Rightarrow> artist) \<times> axes" where
  "add_artists [] sa = sa"
| "add_artists (a # as) (st, axs) =
     add_artists as (st(a := (st a)\<lparr>picker := Some 5\<rparr>), axs\<lparr>children := children axs @ [a]\<rparr>)"

definition plot :: "'x env \<Rightarrow> 'x figure \<Rightarrow> 'x outcome" where
  "plot tk f =
     (let a0 = (case ax f of None \<Rightarrow> add_subplot tk (aspect f) | Some a \<Rightarrow> cla a);
          (st, a1) = add_artists (artists f) (store f, a0);
          f1 = f\<lparr>store := st, ax := Some a1\<rparr>;
          f2 = (if do_scale_bounds f1
                then f1\<lparr>view_bbox := Some (scale_bounds tk (sys_bbox f1) (oversize_factor f1))\<rparr>
                else f1);
          f3 = f2\<lparr>ax := Some (set_aspect tk (aspect f2) a1)\<rparr>
      in then_do (update_axis_limits tk (view_bbox f3) f3)
           (\<lambda>f4. let f5 = f4\<lparr>ax := map_option (draw_frame tk (do_draw_frame f4)) (ax f4)\<rparr>;
                     f6 = f5\<lparr>ax := map_option (ax_set_facecolor tk) (ax f5)\<rparr>;
                     f7 = f6\<lparr>ax := map_option (draw_axes tk (header f6) (x_label f6) (y_label f6)
                                                  (do_draw_axes f6)) (ax f6)\<rparr>;
                     f8 = connect_events None f7
                 in ok (f8\<lparr>canvas := draw (canvas f8)\<rparr>)))"

definition zoom :: "'x env \<Rightarrow> real \<Rightarrow> 'x figure \<Rightarrow> 'x outcome" where
  "zoom tk factor f =
     (case view_bbox f of
        None \<Rightarrow> raise TypeError f
      | Some bbox \<Rightarrow>
          (let hlf_x = (fst (snd bbox) - fst (fst bbox)) / 2;
               hlf_y = (snd (snd bbox) - snd (fst bbox)) / 2;
               cen_x = (fst (snd bbox) + fst (fst bbox)) / 2;
               cen_y = (snd (snd bbox) + snd (fst bbox)) / 2;
               hlf_x = hlf_x * factor;
               hlf_y = hlf_y * factor;
               view_bbox' = ((cen_x - hlf_x, cen_y - hlf_y), (cen_x + hlf_x, cen_y + hlf_y))
           in then_do (set_view_bbox tk (Some view_bbox') f) (plot tk)))"

definition zoom_in :: "'x env \<Rightarrow> 'x figure \<Rightarrow> 'x outcome" where
  "zoom_in tk f = zoom tk 0.8 f"

definition zoom_out :: "'x env \<Rightarrow> 'x figure \<Rightarrow> 'x outcome" where
  "zoom_out tk f = zoom tk 1.2 f"

subsection \<open>Finding the artists under the cursor\<close>

fun hit_artists :: "'x env \<Rightarrow> (nat \<Rightarrow> artist) \<Rightarrow> event \<Rightarrow> nat list \<Rightarrow> select_info list" where
  "hit_artists tk st ev [] = []"
| "hit_artists tk st ev (a # as) =
     (if shape (st a) \<noteq> None
      then (case contains tk a ev of
              (inside, info) \<Rightarrow>
                if inside then SelectInfo a info # hit_artists tk st ev as
                else hit_artists tk st ev as)
      else hit_artists tk st ev as)"

text \<open>
  \<^verbatim>\<open>sorted(xs, key=k, reverse=True)\<close>: Python reverses the list, sorts it stably in
  increasing order and reverses the result, so that equal keys keep their order.
\<close>

definition sorted_reverse :: "('a \<Rightarrow> real) \<Rightarrow> 'a list \<Rightarrow> 'a list" where
  "sorted_reverse k xs = rev (sort_key k (rev xs))"

definition find_artists_at_location ::
  "'x env \<Rightarrow> event \<Rightarrow> 'x figure \<Rightarrow> py_error + select_info list" where
  "find_artists_at_location tk ev f =
     (case ax f of
        None \<Rightarrow> Inl AttributeError
      | Some a \<Rightarrow>
          Inr (sorted_reverse (\<lambda>s. zorder (store f (artist_of s)))
                 (hit_artists tk (store f) ev (children a))))"

subsection \<open>Actions\<close>

definition do_shape_action ::
  "'x env \<Rightarrow> event \<Rightarrow> select_info option \<Rightarrow> string \<Rightarrow> 'x figure \<Rightarrow> 'x outcome" where
  "do_shape_action tk ev target event_key f =
     (case target of
        None \<Rightarrow> ok f
      | Some t \<Rightarrow>
          (case shape (store f (artist_of t)) of
             None \<Rightarrow> raise AttributeError f
           | Some (shp, handle) \<Rightarrow>
               (case shape_actions tk shp event_key of
                  None \<Rightarrow> ok f
                | Some action \<Rightarrow> ok (f\<lparr>ext := action handle ev (info_of t) (ext f)\<rparr>))))"

text \<open>The three actions of \<^verbatim>\<open>PanAction\<close>.\<close>

definition pan_on_press :: "'x env \<Rightarrow> event \<Rightarrow> 'x figure \<Rightarrow> 'x outcome" where
  "pan_on_press tk ev f =
     (let f1 = f\<lparr>pan_button := Some (button ev)\<rparr>
      in case ax f1 of
           None \<Rightarrow> raise AttributeError f1
         | Some a \<Rightarrow> ok (f1\<lparr>ax := Some (start_pan tk (ev_x ev) (ev_y ev) (button ev) a)\<rparr>))"

definition pan_on_drag :: "'x env \<Rightarrow> event \<Rightarrow> 'x figure \<Rightarrow> 'x outcome" where
  "pan_on_drag tk ev f =
     (case ax f of
        None \<Rightarrow> raise AttributeError f
      | Some a \<Rightarrow>
          (case pan_button f of
             None \<Rightarrow> raise AttributeError f
           | Some b \<Rightarrow>
               (let f1 = f\<lparr>ax := Some (drag_pan tk b (ev_key ev) (ev_x ev) (ev_y ev) a)\<rparr>
                in ok (f1\<lparr>canvas := draw (canvas f1)\<rparr>))))"

definition pan_on_release :: "'x env \<Rightarrow> event \<Rightarrow> 'x figure \<Rightarrow> 'x outcome" where
  "pan_on_release tk ev f =
     (case ax f of
        None \<Rightarrow> raise AttributeError f
      | Some a \<Rightarrow>
          (let a1 = end_pan tk a;
               f1 = f\<lparr>ax := Some a1\<rparr>;
               (x_min, x_max) = get_xbound a1;
               (y_min, y_max) = get_ybound a1
           in ok (f1\<lparr>view_bbox := Some ((x_min, y_min), (x_max, y_max))\<rparr>)))"

text \<open>
  The closure \<^verbatim>\<open>do_command_action\<close> of \<^verbatim>\<open>register_action\<close> looks the key up in the
  actions of the \<^verbatim>\<open>PanAction\<close> and passes over a missing key.
\<close>

definition do_command_action ::
  "'x env \<Rightarrow> event \<Rightarrow> select_info option \<Rightarrow> string \<Rightarrow> 'x figure \<Rightarrow> 'x outcome" where
  "do_command_action tk ev target event_key f =
     (if event_key = ''press'' then pan_on_press tk ev f
      else if event_key = ''drag'' then pan_on_drag tk ev f
      else if event_key = ''release'' then pan_on_release tk ev f
      else ok f)"

definition call_do_action ::
  "'x env \<Rightarrow> event \<Rightarrow> select_info option \<Rightarrow> string \<Rightarrow> 'x figure \<Rightarrow> 'x outcome" where
  "call_do_action tk ev target event_key f =
     (case do_action f of
        ShapeAction \<Rightarrow> do_shape_action tk ev target event_key f
      | PanCommand \<Rightarrow> do_command_action tk ev target event_key f
      | ZoomBoxIdle \<Rightarrow> ok f)"

subsection \<open>The mouse handlers\<close>

definition on_press :: "'x env \<Rightarrow> event \<Rightarrow> 'x figure \<Rightarrow> 'x outcome" where
  "on_press tk ev f =
     (let f1 = f\<lparr>save_do_scale_bounds := Some (do_scale_bounds f)\<rparr>;
          f2 = f1\<lparr>do_scale_bounds := False\<rparr>;
          target_artist = hilited f2;
          f3 = f2\<lparr>selected := target_artist\<rparr>
      in call_do_action tk ev target_artist ''press'' f3)"

text \<open>
  The branch of \<^verbatim>\<open>on_motion\<close> taken when the artist under the cursor is not the
  hilited one. The canvas reached through \<^verbatim>\<open>artist.figure.canvas\<close> is the figure's own.
  \<^verbatim>\<open>SelectInfo\<close> is a tuple of two fields, so \<^verbatim>\<open>if self.hilited\<close> and
  \<^verbatim>\<open>if next_hilited\<close> test for \<^verbatim>\<open>None\<close>.
\<close>

definition unhilite_current :: "'x figure \<Rightarrow> 'x outcome" where
  "unhilite_current f =
     (case hilited f of
        None \<Rightarrow> ok f
      | Some h \<Rightarrow>
          (case unhighlight (store f (artist_of h)) of
             Inl e \<Rightarrow> raise e f
           | Inr p \<Rightarrow>
               ok (f\<lparr>store := (store f)(artist_of h := p), canvas := draw (canvas f)\<rparr>)))"

definition hilite_next :: "select_info option \<Rightarrow> 'x figure \<Rightarrow> 'x figure" where
  "hilite_next next_hilited f =
     (case next_hilited of
        None \<Rightarrow> f
      | Some n \<Rightarrow>
          f\<lparr>store := (store f)(artist_of n := highlight (store f (artist_of n))),
            canvas := draw (canvas f)\<rparr>)"

definition on_motion :: "'x env \<Rightarrow> event \<Rightarrow> 'x figure \<Rightarrow> 'x outcome" where
  "on_motion tk ev f =
     (case selected f of
        None \<Rightarrow>
          (case find_artists_at_location tk ev f of
             Inl e \<Rightarrow> raise e f
           | Inr arts \<Rightarrow>
               (let next_hilited = (if length arts > 0 then Some (hd arts) else None);
                    cur_art = map_option artist_of (hilited f);
                    nxt_art = map_option artist_of next_hilited
                in if nxt_art \<noteq> cur_art
                   then then_do (unhilite_current f)
                          (\<lambda>f1. ok ((hilite_next next_hilited f1)\<lparr>hilited := next_hilited\<rparr>))
                   else ok f))
      | Some sel \<Rightarrow>
          then_do (call_do_action tk ev (selected f) ''drag'' f)
            (\<lambda>f1. case selected f1 of
                    None \<Rightarrow> raise AttributeError f1
                  | Some s \<Rightarrow>
                      (case shape (store f1 (artist_of s)) of
                         None \<Rightarrow> raise AttributeError f1
                       | Some sh \<Rightarrow> ok f1)))"

definition on_release :: "'x env \<Rightarrow> event \<Rightarrow> 'x figure \<Rightarrow> 'x outcome" where
  "on_release tk ev f =
     then_do (call_do_action tk ev (selected f) ''release'' f)
       (\<lambda>f1. case save_do_scale_bounds f1 of
               None \<Rightarrow> raise AttributeError f1
             | Some b \<Rightarrow>
                 (let f2 = f1\<lparr>do_scale_bounds := b\<rparr>;
                      f3 = f2\<lparr>selected := None\<rparr>
                  in ok (action_complete f3)))"

text \<open>
  The callback \<^verbatim>\<open>on_release\<close> of \<^verbatim>\<open>ZoomBoxAction\<close>, called by the rectangle selector
  with the press and the release event.
\<close>

definition zoom_box_on_release :: "'x env \<Rightarrow> event \<Rightarrow> event \<Rightarrow> 'x figure \<Rightarrow> 'x outcome" where
  "zoom_box_on_release tk press_event release_event f =
     (let bbox = ((xdata press_event, ydata press_event),
                  (xdata release_event, ydata release_event))
      in then_do (set_view_bbox tk (Some bbox) f)
           (\<lambda>f1. let f2 = f1\<lparr>canvas := draw (canvas f1)\<rparr>;
                     f3 = f2\<lparr>rubber_box := False\<rparr>
                 in case saved_events f3 of
                      None \<Rightarrow> raise AttributeError f3
                    | Some evs \<Rightarrow> ok (action_complete (connect_events (Some evs) f3))))"

text \<open>A sequence of mouse events, each handled in the state the one before left.\<close>

datatype mouse = Press event | Motion event | Release event

definition handle :: "'x env \<Rightarrow> mouse \<Rightarrow> 'x figure \<Rightarrow> 'x outcome" where
  "handle tk m f =
     (case m of
        Press ev \<Rightarrow> on_press tk ev f
      | Motion ev \<Rightarrow> on_motion tk ev f
      | Release ev \<Rightarrow> on_release tk ev f)"

fun run :: "'x env \<Rightarrow> mouse list \<Rightarrow> 'x figure \<Rightarrow> 'x figure" where
  "run tk [] f = f"
| "run tk (m # ms) f = run tk ms (fst (handle tk m f))"

text \<open>
  An artist is in the highlighted state from its \<^verbatim>\<open>highlight\<close> to its \<^verbatim>\<open>unhighlight\<close>:
  while its attribute \<^verbatim>\<open>unhilite\<close> holds the saved style.
\<close>

definition highlighted :: "'x figure \<Rightarrow> nat \<Rightarrow> bool" where
  "highlighted f i = (unhilite (store f i) \<noteq> None)"

section \<open>The paraxial design figure: the embedding\<close>

subsection \<open>The hit-test loop\<close>

text \<open>
  Modelled from the spec: \<^verbatim>\<open>util.misc_math.distance_sqr_2d\<close> is imported and not part of
  the sources; it is the squared distance of two points in display pixels (the
  pixel-distance-to-vertex of the hit test).
\<close>

definition distance_sqr_2d :: "real \<times> real \<Rightarrow> real \<times> real \<Rightarrow> real" where
  "distance_sqr_2d pt0 pt1 = (fst pt0 - fst pt1)\<^sup>2 + (snd pt0 - snd pt1)\<^sup>2"

text \<open>
  The loop \<^verbatim>\<open>for i, pt in enumerate(dsp_hits)\<close>, the same text in
  \<^verbatim>\<open>EditableLine.process_hit_location\<close> and in \<^verbatim>\<open>ParaxialDesignFigure.on_press\<close>.
  \<^verbatim>\<open>dsp_hits\<close> has one row for each entry of \<^verbatim>\<open>hit_list\<close>, so the loop runs over
  the pairs \<^verbatim>\<open>(hit_list[i], pt)\<close>. The state of the loop is
  \<^verbatim>\<open>(hit_vertex, min_hit_dist)\<close>.
\<close>

fun hit_loop ::
  "real \<Rightarrow> real \<times> real \<Rightarrow> (nat \<times> (real \<times> real)) list \<Rightarrow> nat option \<times> real \<Rightarrow> nat option \<times> real" where
  "hit_loop pick_radius_sqr hit_pt [] (hit_vertex, min_hit_dist) = (hit_vertex, min_hit_dist)"
| "hit_loop pick_radius_sqr hit_pt ((h, pt) # rest) (hit_vertex, min_hit_dist) =
     (let hit_dist = distance_sqr_2d pt hit_pt
      in if hit_dist < min_hit_dist
         then hit_loop pick_radius_sqr hit_pt rest
                (if hit_dist < pick_radius_sqr then Some h else hit_vertex, hit_dist)
         else hit_loop pick_radius_sqr hit_pt rest (hit_vertex, min_hit_dist))"

text \<open>
  \<^verbatim>\<open>[[xdata[i], ydata[i]] for i in hit_list]\<close>: an index out of range raises.
\<close>

fun line_hits :: "real list \<Rightarrow> real list \<Rightarrow> nat list \<Rightarrow> py_error + (real \<times> real) list" where
  "line_hits xs ys [] = Inr []"
| "line_hits xs ys (i # is) =
     (if i < length xs \<and> i < length ys
      then (case line_hits xs ys is of
              Inl e \<Rightarrow> Inl e
            | Inr hits \<Rightarrow> Inr ((xs ! i, ys ! i) # hits))
      else Inl IndexError)"

text \<open>
  The vertex picked for a cursor at \<open>hit_pt\<close>: the candidates are transformed to display
  pixels by \<^verbatim>\<open>transData.transform\<close> (\<open>tr\<close>), the loop starts from
  \<^verbatim>\<open>hit_vertex = None\<close> and \<^verbatim>\<open>min_hit_dist = 1e10\<close>.
\<close>

definition find_hit_vertex ::
  "(real \<times> real \<Rightarrow> real \<times> real) \<Rightarrow> real \<Rightarrow> real \<times> real \<Rightarrow> nat list \<Rightarrow> (real \<times> real) list \<Rightarrow> nat option" where
  "find_hit_vertex tr pick_radius_sqr hit_pt hit_list hits =
     (let dsp_hits = map tr hits
      in fst (hit_loop pick_radius_sqr hit_pt (zip hit_list dsp_hits) (None, 10000000000)))"

subsection \<open>EditableLine\<close>

text \<open>
  The plotted line of the toolkit: its data and its pick radius. \<^verbatim>\<open>line.contains(event)\<close>
  is the toolkit's and is a parameter: whether the cursor is on the line, and the indices
  \<^verbatim>\<open>'ind'\<close> of the vertices that start a segment near it.
\<close>

record line2d =
  line_xdata :: "real list"
  line_ydata :: "real list"
  pickradius :: real

datatype coords = Scalar real | Seq "real list"

text \<open>\<^verbatim>\<open>xs[h:h+2]\<close>\<close>

definition slice2 :: "real list \<Rightarrow> nat \<Rightarrow> real list" where
  "slice2 xs h = take 2 (drop h xs)"

definition process_hit_location ::
  "(real \<times> real \<Rightarrow> real \<times> real) \<Rightarrow> line2d \<Rightarrow> event \<Rightarrow> nat list \<Rightarrow> py_error + (coords \<times> coords \<times> string)" where
  "process_hit_location tr lin ev hit_list =
     (let xs = line_xdata lin; ys = line_ydata lin
      in case line_hits xs ys hit_list of
           Inl e \<Rightarrow> Inl e
         | Inr hits \<Rightarrow>
             (case find_hit_vertex tr ((pickradius lin)\<^sup>2) (ev_x ev, ev_y ev) hit_list hits of
                None \<Rightarrow>
                  (case hit_list of
                     [] \<Rightarrow> Inl IndexError
                   | h # _ \<Rightarrow> Inr (Seq (slice2 xs h), Seq (slice2 ys h), []))
              | Some hit_vertex \<Rightarrow>
                  Inr (Scalar (xs ! hit_vertex), Scalar (ys ! hit_vertex), ''s'')))"

subsection \<open>ParaxialDesignFigure\<close>

text \<open>
  The lens built by \<^verbatim>\<open>pd.build_lens\<close>: \<^verbatim>\<open>lens[ax]\<close> and \<^verbatim>\<open>lens[pr]\<close> are the axial and
  the chief ray, each indexed by \<^verbatim>\<open>ht\<close>, \<^verbatim>\<open>slp\<close>, \<^verbatim>\<open>aoi\<close> (constants of
  \<^verbatim>\<open>optical.model_constants\<close>); the rest of the lens is \<open>lns\<close>.
\<close>

datatype ray = Ax | Pr

datatype ray_field = Ht | Slp | Aoi

record 'l lens =
  rays :: "ray \<Rightarrow> ray_field \<Rightarrow> real list"
  lns :: 'l

datatype apply_kind = Ht_to_slope | Slope_to_ht

text \<open>
  What \<^verbatim>\<open>setup_dgm_type\<close> sets: \<^verbatim>\<open>type_sel\<close>, \<^verbatim>\<open>data_slice\<close> (start and stop of the
  slice, a stop of \<open>None\<close> being the end) and \<^verbatim>\<open>apply_data\<close>.
\<close>

record dgm_setup =
  type_sel :: ray_field
  slice_start :: nat
  slice_stop :: "int option"
  apply_data :: apply_kind

definition ht_dgm :: nat where "ht_dgm = 0"

definition slp_dgm :: nat where "slp_dgm = 1"

definition setup_dgm_type :: "nat \<Rightarrow> dgm_setup option \<Rightarrow> dgm_setup option" where
  "setup_dgm_type dgm_type old =
     (if dgm_type = ht_dgm
      then Some \<lparr>type_sel = Ht, slice_start = 1, slice_stop = None, apply_data = Ht_to_slope\<rparr>
      else if dgm_type = slp_dgm
      then Some \<lparr>type_sel = Slp, slice_start = 0, slice_stop = Some (- 1), apply_data = Slope_to_ht\<rparr>
      else old)"

text \<open>\<^verbatim>\<open>xs[start:stop]\<close> for a start that is not negative.\<close>

definition py_slice :: "nat \<Rightarrow> int option \<Rightarrow> 'a list \<Rightarrow> 'a list" where
  "py_slice start stop xs =
     (let n = int (length xs);
          e = (case stop of
                 None \<Rightarrow> n
               | Some s \<Rightarrow> if s < 0 then max 0 (n + s) else min s n)
      in drop start (take (nat e) xs))"

text \<open>
  The figure. \<open>'m\<close> is the sequential model. \<open>dgm = None\<close> stands for the attributes of
  \<^verbatim>\<open>setup_dgm_type\<close> not being set (a diagram type other than the two known).
  \<open>line\<close> is the line plotted by \<^verbatim>\<open>plot\<close>, which also connects the handlers: they run
  with a line. \<open>refresh_calls\<close> counts the calls of the callback \<^verbatim>\<open>refresh_gui\<close>.
\<close>

record ('m, 'l) pdf =
  seq_model :: 'm
  lens :: "'l lens"
  dgm :: "dgm_setup option"
  vertex :: "nat option"
  line :: line2d
  refresh_calls :: nat

text \<open>
  What the figure calls and the sources do not hold: \<^verbatim>\<open>self.line.contains(event)\<close> and
  \<^verbatim>\<open>self.ax.transData.transform\<close> of the toolkit, \<^verbatim>\<open>pd.ht_to_slope\<close> and
  \<^verbatim>\<open>pd.slope_to_ht\<close> (they change the lens they are given),
  \<^verbatim>\<open>seq_model.optical_spec.parax_data[2].opt_inv\<close> and
  \<^verbatim>\<open>seq_model.paraxial_lens_to_seq_model\<close>.
\<close>

record ('m, 'l) penv =
  line_contains :: "line2d \<Rightarrow> event \<Rightarrow> bool \<times> nat list"
  transData :: "real \<times> real \<Rightarrow> real \<times> real"
  ht_to_slope :: "'l lens \<Rightarrow> nat \<Rightarrow> real \<Rightarrow> 'l lens"
  slope_to_ht :: "'l lens \<Rightarrow> nat \<Rightarrow> real \<Rightarrow> 'l lens"
  opt_inv :: "'m \<Rightarrow> real"
  paraxial_lens_to_seq_model :: "'m \<Rightarrow> 'l lens \<Rightarrow> 'm"

type_synonym ('m, 'l) poutcome = "('m, 'l) pdf \<times> py_error option"

definition pdf_on_press :: "('m, 'l) penv \<Rightarrow> event \<Rightarrow> ('m, 'l) pdf \<Rightarrow> ('m, 'l) poutcome" where
  "pdf_on_press tk ev f =
     (case line_contains tk (line f) ev of
        (hit, hit_list) \<Rightarrow>
          if hit
          then (case dgm f of
                  None \<Rightarrow> (f, Some AttributeError)
                | Some d \<Rightarrow>
                    (let x_data = py_slice (slice_start d) (slice_stop d) (rays (lens f) Pr (type_sel d));
                         y_data = py_slice (slice_start d) (slice_stop d) (rays (lens f) Ax (type_sel d))
                     in case line_hits x_data y_data hit_list of
                          Inl e \<Rightarrow> (f, Some e)
                        | Inr hits \<Rightarrow>
                            (case find_hit_vertex (transData tk) ((pickradius (line f))\<^sup>2)
                                    (ev_x ev, ev_y ev) hit_list hits of
                               None \<Rightarrow> (f, None)
                             | Some hit_vertex \<Rightarrow>
                                 (f\<lparr>vertex := Some (hit_vertex + slice_start d)\<rparr>, None))))
          else (f, None))"

text \<open>\<^verbatim>\<open>xs[i] = v\<close>, which raises when the index is out of range.\<close>

definition set_item :: "real list \<Rightarrow> nat \<Rightarrow> real \<Rightarrow> py_error + real list" where
  "set_item xs i v = (if i < length xs then Inr (xs[i := v]) else Inl IndexError)"

definition set_ray :: "ray \<Rightarrow> ray_field \<Rightarrow> real list \<Rightarrow> 'l lens \<Rightarrow> 'l lens" where
  "set_ray r sel xs l = l\<lparr>rays := (rays l)(r := (rays l r)(sel := xs))\<rparr>"

definition call_apply_data ::
  "('m, 'l) penv \<Rightarrow> apply_kind \<Rightarrow> 'l lens \<Rightarrow> nat \<Rightarrow> real \<Rightarrow> 'l lens" where
  "call_apply_data tk k l v oi =
     (case k of Ht_to_slope \<Rightarrow> ht_to_slope tk l v oi | Slope_to_ht \<Rightarrow> slope_to_ht tk l v oi)"

text \<open>
  \<^verbatim>\<open>if self.vertex:\<close> is false for \<^verbatim>\<open>None\<close> and for the index 0.
\<close>

definition truthy :: "nat option \<Rightarrow> bool" where
  "truthy v = (case v of None \<Rightarrow> False | Some n \<Rightarrow> n \<noteq> 0)"

definition pdf_on_release :: "('m, 'l) penv \<Rightarrow> event \<Rightarrow> ('m, 'l) pdf \<Rightarrow> ('m, 'l) poutcome" where
  "pdf_on_release tk ev f =
     (case vertex f of
        None \<Rightarrow> (f, None)
      | Some v \<Rightarrow>
          if truthy (vertex f)
          then (case dgm f of
                  None \<Rightarrow> (f, Some AttributeError)
                | Some d \<Rightarrow>
                    (case set_item (rays (lens f) Pr (type_sel d)) v (xdata ev) of
                       Inl e \<Rightarrow> (f, Some e)
                     | Inr xs \<Rightarrow>
                         (let f1 = f\<lparr>lens := set_ray Pr (type_sel d) xs (lens f)\<rparr>
                          in case set_item (rays (lens f1) Ax (type_sel d)) v (ydata ev) of
                               Inl e \<Rightarrow> (f1, Some e)
                             | Inr ys \<Rightarrow>
                                 (let f2 = f1\<lparr>lens := set_ray Ax (type_sel d) ys (lens f1)\<rparr>;
                                      oi = opt_inv tk (seq_model f2);
                                      f3 = f2\<lparr>lens := call_apply_data tk (apply_data d) (lens f2) v oi\<rparr>;
                                      f4 = f3\<lparr>seq_model := paraxial_lens_to_seq_model tk (seq_model f3) (lens f3)\<rparr>;
                                      f5 = f4\<lparr>refresh_calls := Suc (refresh_calls f4)\<rparr>
                                  in (f5\<lparr>vertex := None\<rparr>, None)))))
          else (f, None))"

subsection \<open>A paraxial design figure to run the handlers on\<close>

text \<open>
  A lens of four surfaces, a toolkit whose line is hit (at the candidates 0 and 1) by every
  cursor left of pixel 100 and missed by every other, with display pixels equal to data
  coordinates, and external operations that leave the lens and the model as they are.
  \<open>example_pdf\<close> is the figure after \<^verbatim>\<open>__init__\<close> and \<^verbatim>\<open>plot\<close> for a diagram type.
\<close>

definition example_lens :: "unit lens" where
  "example_lens =
     \<lparr>rays = (\<lambda>r s. case r of Pr \<Rightarrow> [0, 3, 10, 12] | Ax \<Rightarrow> [0, 4, 0, 1]), lns = ()\<rparr>"

definition example_penv :: "(unit, unit) penv" where
  "example_penv =
     \<lparr>line_contains = (\<lambda>l e. if ev_x e < 100 then (True, [0, 1]) else (False, [])),
      transData = (\<lambda>p. p),
      ht_to_slope = (\<lambda>l v oi. l),
      slope_to_ht = (\<lambda>l v oi. l),
      opt_inv = (\<lambda>m. 1),
      paraxial_lens_to_seq_model = (\<lambda>m l. m)\<rparr>"

definition example_pdf :: "nat \<Rightarrow> (unit, unit) pdf" where
  "example_pdf dgm_type =
     (let d = setup_dgm_type dgm_type None;
          sl = (\<lambda>r. case d of
                       None \<Rightarrow> []
                     | Some s \<Rightarrow> py_slice (slice_start s) (slice_stop s) (rays example_lens r (type_sel s)))
      in \<lparr>seq_model = (), lens = example_lens, dgm = d, vertex = None,
          line = \<lparr>line_xdata = sl Pr, line_ydata = sl Ax, pickradius = 6\<rparr>,
          refresh_calls = 0\<rparr>)"

definition mouse_at :: "real \<Rightarrow> real \<Rightarrow> event" where
  "mouse_at x y = \<lparr>ev_x = x, ev_y = y, xdata = x, ydata = y, button = 1, ev_key = None\<rparr>"

text \<open>
  A second toolkit and figure, for a release that edits: \<^verbatim>\<open>ht_to_slope\<close> and
  \<^verbatim>\<open>slope_to_ht\<close> record the vertex and the optical invariant they are called with in
  the axial ray, the optical invariant is the sum of the sequential model (a list of
  numbers here), and the sequential model is updated to the chief-ray heights of the lens.
  The figure is the height diagram with the vertex 1 stored by a press.
\<close>

definition tracing_penv :: "(real list, unit) penv" where
  "tracing_penv =
     \<lparr>line_contains = (\<lambda>l e. if ev_x e < 100 then (True, [0, 1]) else (False, [])),
      transData = (\<lambda>p. p),
      ht_to_slope = (\<lambda>l v oi. set_ray Ax Slp [real v, oi] l),
      slope_to_ht = (\<lambda>l v oi. set_ray Ax Ht [real v, oi] l),
      opt_inv = (\<lambda>m. sum_list m),
      paraxial_lens_to_seq_model = (\<lambda>m l. rays l Pr Ht)\<rparr>"

definition tracing_pdf :: "(real list, unit) pdf" where
  "tracing_pdf =
     \<lparr>seq_model = [2, 3], lens = example_lens, dgm = setup_dgm_type ht_dgm None,
      vertex = Some 1,
      line = \<lparr>line_xdata = [3, 10, 12], line_ydata = [4, 0, 1], pickradius = 6\<rparr>,
      refresh_calls = 0\<rparr>"

subsection \<open>An interactive figure to run the handlers on\<close>

text \<open>
  Three artists on the axes: a polygon (z-order 1) under every cursor left of pixel 20, a
  polyline and a vertex (both of z-order 2) under every cursor left of pixel 10. The
  actions of the shapes count the drags; a drag of the pan moves the limits of the axes by
  the cursor position. \<open>example_scale_bounds\<close> stands for \<^verbatim>\<open>util.scale_bounds\<close>, which
  is not part of the sources: the box grown on every side by the given fraction of its
  larger extent. The toolkit of the example keeps the limits it is given by \<^verbatim>\<open>set_xlim\<close>
  and \<^verbatim>\<open>set_ylim\<close> and does nothing else to the axes; it stands in for the plotting
  library only where a handler has to be run.
\<close>

definition example_scale_bounds :: "bbox \<Rightarrow> real \<Rightarrow> bbox" where
  "example_scale_bounds b ov =
     (let inc_x = ov * (fst (snd b) - fst (fst b));
          inc_y = ov * (snd (snd b) - snd (fst b));
          incr = max inc_x inc_y
      in ((fst (fst b) - incr, snd (fst b) - incr), (fst (snd b) + incr, snd (snd b) + incr)))"

definition example_env :: "nat env" where
  "example_env =
     \<lparr>contains = (\<lambda>a e. (if a = 0 then ev_x e < 20 else ev_x e < 10, None)),
      shape_actions = (\<lambda>shp k. if k = ''drag'' then Some (\<lambda>h e i n. Suc n) else None),
      start_pan = (\<lambda>x y b a. a),
      drag_pan = (\<lambda>b k x y a. a\<lparr>xlim := (fst (xlim a) - x, snd (xlim a) - x),
                                  ylim := (fst (ylim a) - y, snd (ylim a) - y)\<rparr>),
      end_pan = (\<lambda>a. a),
      scale_bounds = example_scale_bounds,
      add_subplot = (\<lambda>asp. \<lparr>xlim = (0, 1), ylim = (0, 1), children = []\<rparr>),
      set_aspect = (\<lambda>asp a. a),
      set_xlim = (\<lambda>l r a. a\<lparr>xlim := (l, r)\<rparr>),
      set_ylim = (\<lambda>l r a. a\<lparr>ylim := (l, r)\<rparr>),
      set_axis_on = (\<lambda>a. a),
      set_axis_off = (\<lambda>a. a),
      tight_layout = (\<lambda>a. a),
      ax_set_facecolor = (\<lambda>a. a),
      grid = (\<lambda>b a. a),
      axvline = (\<lambda>x a. a),
      axhline = (\<lambda>y a. a),
      set_title = (\<lambda>t a. a),
      set_xlabel = (\<lambda>t a. a),
      set_ylabel = (\<lambda>t a. a)\<rparr>"

definition example_store :: "nat \<Rightarrow> artist" where
  "example_store i =
     (if i = 0 then (create_polygon (1 / 2) (0, 0, 1, 1 / 2) None 1)\<lparr>shape := Some (0, ''poly'')\<rparr>
      else if i = 1 then (create_polyline (1 / 2) (ColorName ''blue'') None None 2)\<lparr>shape := Some (1, ''line'')\<rparr>
      else (create_vertex (1 / 2) (ColorName ''blue'') None None 2)\<lparr>shape := Some (2, ''vertex'')\<rparr>)"

definition example_figure :: "nat figure" where
  "example_figure =
     \<lparr>fig_linewidth = 1 / 2, do_draw_frame = False, do_draw_axes = False,
      header = None, x_label = None, y_label = None,
      aspect = ''equal'', hilited = None, selected = None,
      do_scale_bounds = False, save_do_scale_bounds = None, do_action = ShapeAction,
      event_dict = default_actions, callback_ids = Some [0, 1, 2], on_finished = None,
      view_bbox = Some ((0, 0), (10, 20)), sys_bbox = ((0, 0), (10, 20)),
      oversize_factor = 1 / 20, artists = [0, 1, 2], store = example_store,
      ax = Some \<lparr>xlim = (0, 10), ylim = (0, 20), children = [0, 1, 2]\<rparr>,
      canvas = \<lparr>next_cid = 3,
                callbacks = [(0, ''button_press_event'', H_on_press),
                             (1, ''button_release_event'', H_on_release),
                             (2, ''motion_notify_event'', H_on_motion)],
                draws = 1\<rparr>,
      pan_button = None, saved_events = None, rubber_box = False, ext = 0\<rparr>"

section \<open>Theorems\<close>

lemma unhighlight_highlight_polygon:
  "unhighlight_polygon (highlight_polygon p) = Inr (p\<lparr>unhilite := None\<rparr>)"
  by (simp add: unhighlight_polygon_def highlight_polygon_def Let_def)

lemma unhighlight_highlight_polyline:
  "unhighlight_polyline (highlight_polyline p) = Inr (p\<lparr>unhilite := None\<rparr>)"
  by (simp add: unhighlight_polyline_def highlight_polyline_def Let_def)

lemma unhighlight_highlight_vertex:
  "unhighlight_vertex (highlight_vertex p) = Inr (p\<lparr>unhilite := None\<rparr>)"
  by (simp add: unhighlight_vertex_def highlight_vertex_def Let_def)

lemma kind_highlight [simp]: "kind (highlight p) = kind p"
  by (cases "kind p")
     (simp_all add: highlight_def highlight_polygon_def highlight_polyline_def
        highlight_vertex_def Let_def)

text \<open>
  Claim C5. For an artist made by \<^verbatim>\<open>create_polygon\<close>, \<^verbatim>\<open>create_polyline\<close> or
  \<^verbatim>\<open>create_vertex\<close>, in whatever style it has by now, highlight followed by unhighlight
  raises nothing and gives back the artist with every style attribute as it was before
  the highlight (face colour, edge colour and line width of a polygon; colour and line
  width of a line or a vertex) and with \<^verbatim>\<open>unhilite\<close> set to \<^verbatim>\<open>None\<close>. For a newly
  created artist the result is the artist itself.
\<close>

theorem unhighlight_highlight_roundtrip:
  "unhighlight (highlight p) = Inr (p\<lparr>unhilite := None\<rparr>)
   \<and> unhighlight (highlight (create_polygon flw fill lw z)) = Inr (create_polygon flw fill lw z)
   \<and> unhighlight (highlight (create_polyline flw c h lw z)) = Inr (create_polyline flw c h lw z)
   \<and> unhighlight (highlight (create_vertex flw c h lw z)) = Inr (create_vertex flw c h lw z)"
proof -
  have rt: "unhighlight (highlight q) = Inr (q\<lparr>unhilite := None\<rparr>)" for q
  proof (cases "kind q")
    case Polygon
    then show ?thesis
      using kind_highlight [of q]
      by (simp add: unhighlight_def unhighlight_highlight_polygon [symmetric] highlight_def)
  next
    case Polyline
    then show ?thesis
      using kind_highlight [of q]
      by (simp add: unhighlight_def unhighlight_highlight_polyline [symmetric] highlight_def)
  next
    case Vertex
    then show ?thesis
      using kind_highlight [of q]
      by (simp add: unhighlight_def unhighlight_highlight_vertex [symmetric] highlight_def)
  qed
  have "create_polygon flw fill lw z\<lparr>unhilite := None\<rparr> = create_polygon flw fill lw z"
    by (simp add: create_polygon_def)
  moreover have "create_polyline flw c h lw z\<lparr>unhilite := None\<rparr> = create_polyline flw c h lw z"
    by (simp add: create_polyline_def)
  moreover have "create_vertex flw c h lw z\<lparr>unhilite := None\<rparr> = create_vertex flw c h lw z"
    by (simp add: create_vertex_def)
  ultimately show ?thesis
    using rt by simp
qed

subsection \<open>The hit-test loop\<close>

lemma hit_loop_none_below_min:
  "\<forall>c \<in> set cs. m \<le> distance_sqr_2d (snd c) hp \<Longrightarrow> hit_loop pr2 hp cs (hv, m) = (hv, m)"
  by (induction cs) (auto simp: Let_def)

lemma hit_loop_none_in_radius:
  "\<forall>c \<in> set cs. pr2 \<le> distance_sqr_2d (snd c) hp \<Longrightarrow> fst (hit_loop pr2 hp cs (hv, m)) = hv"
  by (induction cs arbitrary: m) (auto simp: Let_def)

lemma hit_loop_first_argmin:
  assumes "\<forall>c \<in> set pre. distance_sqr_2d pt hp < distance_sqr_2d (snd c) hp"
    and "\<forall>c \<in> set post. distance_sqr_2d pt hp \<le> distance_sqr_2d (snd c) hp"
    and "distance_sqr_2d pt hp < m" and "distance_sqr_2d pt hp < pr2"
  shows "hit_loop pr2 hp (pre @ (h, pt) # post) (hv, m) = (Some h, distance_sqr_2d pt hp)"
  using assms
proof (induction pre arbitrary: hv m)
  case Nil
  then show ?case by (simp add: Let_def hit_loop_none_below_min)
next
  case (Cons c pre)
  obtain h' pt' where c: "c = (h', pt')" by (cases c)
  show ?case
  proof (cases "distance_sqr_2d pt' hp < m")
    case True
    have "hit_loop pr2 hp (pre @ (h, pt) # post)
            (if distance_sqr_2d pt' hp < pr2 then Some h' else hv, distance_sqr_2d pt' hp)
          = (Some h, distance_sqr_2d pt hp)"
      using Cons.prems c by (intro Cons.IH) auto
    with True c show ?thesis by (simp add: Let_def)
  next
    case False
    have "hit_loop pr2 hp (pre @ (h, pt) # post) (hv, m) = (Some h, distance_sqr_2d pt hp)"
      using Cons.prems by (intro Cons.IH) auto
    with False c show ?thesis by (simp add: Let_def)
  qed
qed

lemma first_argmin_split:
  fixes k :: "'a \<Rightarrow> real"
  shows "xs \<noteq> [] \<Longrightarrow>
    \<exists>pre c post. xs = pre @ c # post \<and> (\<forall>x \<in> set pre. k c < k x) \<and> (\<forall>x \<in> set post. k c \<le> k x)"
proof (induction xs)
  case Nil
  then show ?case by simp
next
  case (Cons a xs)
  show ?case
  proof (cases "xs = []")
    case True
    then have "a # xs = [] @ a # []" by simp
    then show ?thesis by (metis empty_iff empty_set)
  next
    case False
    then obtain pre c post where s: "xs = pre @ c # post"
      and p: "\<forall>x \<in> set pre. k c < k x" and q: "\<forall>x \<in> set post. k c \<le> k x"
      using Cons.IH by blast
    show ?thesis
    proof (cases "k a \<le> k c")
      case True
      have "a # xs = [] @ a # xs" by simp
      moreover have "\<forall>x \<in> set xs. k a \<le> k x"
        using s p q True by fastforce
      ultimately show ?thesis by (metis empty_iff empty_set)
    next
      case False
      have "a # xs = (a # pre) @ c # post" using s by simp
      moreover have "\<forall>x \<in> set (a # pre). k c < k x" using p False by auto
      ultimately show ?thesis using q by blast
    qed
  qed
qed


lemma hit_loop_result:
  assumes "cs \<noteq> []"
  shows "\<exists>pre h pt post. cs = pre @ (h, pt) # post
           \<and> (\<forall>c \<in> set pre. distance_sqr_2d pt hp < distance_sqr_2d (snd c) hp)
           \<and> (\<forall>c \<in> set post. distance_sqr_2d pt hp \<le> distance_sqr_2d (snd c) hp)
           \<and> fst (hit_loop pr2 hp cs (hv, m)) =
               (if distance_sqr_2d pt hp < m \<and> distance_sqr_2d pt hp < pr2 then Some h else hv)"
proof -
  obtain pre c post where s: "cs = pre @ c # post"
    and p: "\<forall>x \<in> set pre. distance_sqr_2d (snd c) hp < distance_sqr_2d (snd x) hp"
    and q: "\<forall>x \<in> set post. distance_sqr_2d (snd c) hp \<le> distance_sqr_2d (snd x) hp"
    using first_argmin_split [OF assms, of "\<lambda>c. distance_sqr_2d (snd c) hp"] by blast
  obtain h pt where c: "c = (h, pt)" by (cases c)
  define d where "d = distance_sqr_2d pt hp"
  have p': "\<forall>x \<in> set pre. d < distance_sqr_2d (snd x) hp"
    using p c by (simp add: d_def)
  have q': "\<forall>x \<in> set post. d \<le> distance_sqr_2d (snd x) hp"
    using q c by (simp add: d_def)
  have s': "cs = pre @ (h, pt) # post"
    using s c by simp
  have all: "d \<le> distance_sqr_2d (snd x) hp" if "x \<in> set cs" for x
  proof -
    from that s' have "x \<in> set pre \<or> x = (h, pt) \<or> x \<in> set post" by auto
    then show ?thesis
      using p' q' d_def by (elim disjE) (simp_all add: less_imp_le)
  qed
  have r: "fst (hit_loop pr2 hp cs (hv, m)) = (if d < m \<and> d < pr2 then Some h else hv)"
  proof (cases "d < m")
    case below: True
    show ?thesis
    proof (cases "d < pr2")
      case True
      have "hit_loop pr2 hp (pre @ (h, pt) # post) (hv, m) = (Some h, distance_sqr_2d pt hp)"
        using p' q' below True unfolding d_def by (rule hit_loop_first_argmin)
      then show ?thesis
        using below True s' by simp
    next
      case False
      have "\<forall>x \<in> set cs. pr2 \<le> distance_sqr_2d (snd x) hp"
      proof
        fix x assume "x \<in> set cs"
        then have "d \<le> distance_sqr_2d (snd x) hp" by (rule all)
        with False show "pr2 \<le> distance_sqr_2d (snd x) hp" by simp
      qed
      then have "fst (hit_loop pr2 hp cs (hv, m)) = hv"
        by (rule hit_loop_none_in_radius)
      then show ?thesis
        using False by simp
    qed
  next
    case False
    have "\<forall>x \<in> set cs. m \<le> distance_sqr_2d (snd x) hp"
    proof
      fix x assume "x \<in> set cs"
      then have "d \<le> distance_sqr_2d (snd x) hp" by (rule all)
      with False show "m \<le> distance_sqr_2d (snd x) hp" by simp
    qed
    then have "hit_loop pr2 hp cs (hv, m) = (hv, m)"
      by (rule hit_loop_none_below_min)
    then show ?thesis
      using False by simp
  qed
  show ?thesis
    apply (rule exI [of _ pre], rule exI [of _ h], rule exI [of _ pt], rule exI [of _ post])
    using s' p' q' r unfolding d_def by simp
qed

lemma line_hits_length: "line_hits xs ys hl = Inr hits \<Longrightarrow> length hits = length hl"
  by (induction hl arbitrary: hits) (auto split: if_splits sum.splits)

lemma line_hits_nth:
  "line_hits xs ys hl = Inr hits \<Longrightarrow> i < length hl \<Longrightarrow> hits ! i = (xs ! (hl ! i), ys ! (hl ! i))"
proof (induction hl arbitrary: hits i)
  case Nil
  then show ?case by simp
next
  case (Cons a hl)
  then show ?case
    by (cases i) (auto split: if_splits sum.splits)
qed

lemma hit_loop_index:
  assumes "cs \<noteq> []"
  shows "\<exists>i<length cs.
           (\<forall>j<length cs. distance_sqr_2d (snd (cs ! i)) hp \<le> distance_sqr_2d (snd (cs ! j)) hp)
         \<and> (\<forall>j<i. distance_sqr_2d (snd (cs ! i)) hp < distance_sqr_2d (snd (cs ! j)) hp)
         \<and> fst (hit_loop pr2 hp cs (hv, m)) =
             (if distance_sqr_2d (snd (cs ! i)) hp < m \<and> distance_sqr_2d (snd (cs ! i)) hp < pr2
              then Some (fst (cs ! i)) else hv)"
proof -
  obtain pre h pt post where s: "cs = pre @ (h, pt) # post"
    and p: "\<forall>c \<in> set pre. distance_sqr_2d pt hp < distance_sqr_2d (snd c) hp"
    and q: "\<forall>c \<in> set post. distance_sqr_2d pt hp \<le> distance_sqr_2d (snd c) hp"
    and r: "fst (hit_loop pr2 hp cs (hv, m)) =
             (if distance_sqr_2d pt hp < m \<and> distance_sqr_2d pt hp < pr2 then Some h else hv)"
    using hit_loop_result [OF assms, of hp pr2 hv m] by blast
  define i where "i = length pre"
  have i: "i < length cs" using s by (simp add: i_def)
  have ci: "cs ! i = (h, pt)" using s by (simp add: i_def)
  have before: "distance_sqr_2d pt hp < distance_sqr_2d (snd (cs ! j)) hp" if "j < i" for j
  proof -
    have "cs ! j = pre ! j" using that s by (simp add: i_def nth_append)
    moreover have "pre ! j \<in> set pre" using that by (simp add: i_def)
    ultimately show ?thesis using p by simp
  qed
  have least: "distance_sqr_2d pt hp \<le> distance_sqr_2d (snd (cs ! j)) hp" if "j < length cs" for j
  proof -
    consider "j < i" | "j = i" | "i < j" by linarith
    then show ?thesis
    proof cases
      case 1
      then show ?thesis using before [of j] by simp
    next
      case 2
      then show ?thesis using ci by simp
    next
      case 3
      then have "cs ! j = post ! (j - Suc i)"
        using s by (simp add: i_def nth_append nth_Cons')
      moreover have "post ! (j - Suc i) \<in> set post"
        using 3 that s by (simp add: i_def)
      ultimately show ?thesis using q by simp
    qed
  qed
  show ?thesis
    apply (rule exI [of _ i])
    using i ci before least r by simp
qed


lemma process_hit_location_find:
  assumes "line_hits (line_xdata lin) (line_ydata lin) hit_list = Inr hits"
  shows "process_hit_location tr lin ev hit_list =
           (case find_hit_vertex tr ((pickradius lin)\<^sup>2) (ev_x ev, ev_y ev) hit_list hits of
              None \<Rightarrow>
                (case hit_list of
                   [] \<Rightarrow> Inl IndexError
                 | h # _ \<Rightarrow> Inr (Seq (slice2 (line_xdata lin) h), Seq (slice2 (line_ydata lin) h), []))
            | Some v \<Rightarrow> Inr (Scalar (line_xdata lin ! v), Scalar (line_ydata lin ! v), ''s''))"
  using assms by (simp add: process_hit_location_def Let_def)

lemma pdf_on_press_find:
  assumes "line_contains tk (line f) ev = (True, hit_list)"
    and "dgm f = Some d"
    and "line_hits (py_slice (slice_start d) (slice_stop d) (rays (lens f) Pr (type_sel d)))
           (py_slice (slice_start d) (slice_stop d) (rays (lens f) Ax (type_sel d))) hit_list = Inr hits"
  shows "pdf_on_press tk ev f =
           (case find_hit_vertex (transData tk) ((pickradius (line f))\<^sup>2) (ev_x ev, ev_y ev) hit_list hits of
              None \<Rightarrow> (f, None)
            | Some v \<Rightarrow> (f\<lparr>vertex := Some (v + slice_start d)\<rparr>, None))"
  using assms by (simp add: pdf_on_press_def Let_def)

lemma pdf_on_press_miss:
  assumes "line_contains tk (line f) ev = (False, hit_list)"
  shows "pdf_on_press tk ev f = (f, None)"
  using assms by (simp add: pdf_on_press_def)

lemma find_hit_vertex_index:
  assumes lh: "line_hits xs ys hit_list = Inr hits" and ne: "hit_list \<noteq> []"
  shows "\<exists>i<length hit_list.
           (\<forall>j<length hit_list.
               distance_sqr_2d (tr (xs ! (hit_list ! i), ys ! (hit_list ! i))) hit_pt
               \<le> distance_sqr_2d (tr (xs ! (hit_list ! j), ys ! (hit_list ! j))) hit_pt)
         \<and> (\<forall>j<i.
               distance_sqr_2d (tr (xs ! (hit_list ! i), ys ! (hit_list ! i))) hit_pt
               < distance_sqr_2d (tr (xs ! (hit_list ! j), ys ! (hit_list ! j))) hit_pt)
         \<and> find_hit_vertex tr pr2 hit_pt hit_list hits =
             (if distance_sqr_2d (tr (xs ! (hit_list ! i), ys ! (hit_list ! i))) hit_pt < 10000000000
                 \<and> distance_sqr_2d (tr (xs ! (hit_list ! i), ys ! (hit_list ! i))) hit_pt < pr2
              then Some (hit_list ! i) else None)"
proof -
  define cs where "cs = zip hit_list (map tr hits)"
  have len: "length hits = length hit_list"
    using lh by (rule line_hits_length)
  have lcs: "length cs = length hit_list"
    using len by (simp add: cs_def)
  have nth: "cs ! j = (hit_list ! j, tr (xs ! (hit_list ! j), ys ! (hit_list ! j)))"
    if "j < length hit_list" for j
    using that len line_hits_nth [OF lh that] by (simp add: cs_def)
  have "cs \<noteq> []"
    using ne lcs by auto
  then obtain i where i: "i < length cs"
    and least: "\<forall>j<length cs. distance_sqr_2d (snd (cs ! i)) hit_pt \<le> distance_sqr_2d (snd (cs ! j)) hit_pt"
    and first: "\<forall>j<i. distance_sqr_2d (snd (cs ! i)) hit_pt < distance_sqr_2d (snd (cs ! j)) hit_pt"
    and res: "fst (hit_loop pr2 hit_pt cs (None, 10000000000)) =
             (if distance_sqr_2d (snd (cs ! i)) hit_pt < 10000000000
                 \<and> distance_sqr_2d (snd (cs ! i)) hit_pt < pr2
              then Some (fst (cs ! i)) else None)"
    using hit_loop_index [of cs hit_pt pr2 None 10000000000] by blast
  have i': "i < length hit_list" using i lcs by simp
  have f: "find_hit_vertex tr pr2 hit_pt hit_list hits = fst (hit_loop pr2 hit_pt cs (None, 10000000000))"
    by (simp add: find_hit_vertex_def cs_def)
  show ?thesis
  proof (intro exI [of _ i] conjI allI impI)
    show "i < length hit_list" by (rule i')
  next
    fix j assume j: "j < length hit_list"
    show "distance_sqr_2d (tr (xs ! (hit_list ! i), ys ! (hit_list ! i))) hit_pt
               \<le> distance_sqr_2d (tr (xs ! (hit_list ! j), ys ! (hit_list ! j))) hit_pt"
    proof -
      have "distance_sqr_2d (snd (cs ! i)) hit_pt \<le> distance_sqr_2d (snd (cs ! j)) hit_pt"
        using least j lcs by simp
      then show ?thesis
        by (simp add: nth [OF i'] nth [OF j])
    qed
  next
    fix j assume j: "j < i"
    then have j': "j < length hit_list" using i' by simp
    show "distance_sqr_2d (tr (xs ! (hit_list ! i), ys ! (hit_list ! i))) hit_pt
               < distance_sqr_2d (tr (xs ! (hit_list ! j), ys ! (hit_list ! j))) hit_pt"
    proof -
      have "distance_sqr_2d (snd (cs ! i)) hit_pt < distance_sqr_2d (snd (cs ! j)) hit_pt"
        using first j by simp
      then show ?thesis
        by (simp add: nth [OF i'] nth [OF j'])
    qed
  next
    show "find_hit_vertex tr pr2 hit_pt hit_list hits =
             (if distance_sqr_2d (tr (xs ! (hit_list ! i), ys ! (hit_list ! i))) hit_pt < 10000000000
                 \<and> distance_sqr_2d (tr (xs ! (hit_list ! i), ys ! (hit_list ! i))) hit_pt < pr2
              then Some (hit_list ! i) else None)"
      using res f nth [OF i'] by simp
  qed
qed

lemma find_hit_vertex_empty: "find_hit_vertex tr pr2 hit_pt [] hits = None"
  by (simp add: find_hit_vertex_def)


text \<open>
  Claim C1. The hit test of a cursor on the plotted line, in
  \<^verbatim>\<open>EditableLine.process_hit_location\<close> (press and motion events) and in
  \<^verbatim>\<open>ParaxialDesignFigure.on_press\<close>. The candidates are the vertices \<open>hit_list ! i\<close>
  returned by \<^verbatim>\<open>contains\<close>; the squared distance of candidate \<open>i\<close> is that of its
  display position to the cursor. When a vertex is selected, it is a candidate of minimal
  squared distance, and that distance is strictly less than the squared pick radius. When
  no candidate is within the pick radius, no vertex is selected. The first candidate of
  minimal squared distance is selected when its distance is less than the squared pick
  radius and less than 1e10, the value the loop starts the minimum from. The two methods
  use the result as the source says: \<^verbatim>\<open>process_hit_location\<close> returns the vertex with
  the marker \<^verbatim>\<open>'s'\<close>, or else the edge that starts at the first candidate, with the empty
  marker; \<^verbatim>\<open>on_press\<close> stores the vertex, shifted by the start of the data slice, or
  else stores nothing.
\<close>

theorem hit_test_selects_nearest_vertex:
  assumes lh: "line_hits xs ys hit_list = Inr hits"
  shows "(\<forall>v. find_hit_vertex tr pr2 hit_pt hit_list hits = Some v \<longrightarrow>
            (\<exists>i<length hit_list. hit_list ! i = v
               \<and> distance_sqr_2d (tr (xs ! (hit_list ! i), ys ! (hit_list ! i))) hit_pt < pr2
               \<and> (\<forall>j<length hit_list.
                     distance_sqr_2d (tr (xs ! (hit_list ! i), ys ! (hit_list ! i))) hit_pt
                     \<le> distance_sqr_2d (tr (xs ! (hit_list ! j), ys ! (hit_list ! j))) hit_pt)))
       \<and> ((\<forall>j<length hit_list.
              pr2 \<le> distance_sqr_2d (tr (xs ! (hit_list ! j), ys ! (hit_list ! j))) hit_pt) \<longrightarrow>
            find_hit_vertex tr pr2 hit_pt hit_list hits = None)
       \<and> (\<forall>i<length hit_list.
              distance_sqr_2d (tr (xs ! (hit_list ! i), ys ! (hit_list ! i))) hit_pt < pr2
            \<and> distance_sqr_2d (tr (xs ! (hit_list ! i), ys ! (hit_list ! i))) hit_pt < 10000000000
            \<and> (\<forall>j<length hit_list.
                  distance_sqr_2d (tr (xs ! (hit_list ! i), ys ! (hit_list ! i))) hit_pt
                  \<le> distance_sqr_2d (tr (xs ! (hit_list ! j), ys ! (hit_list ! j))) hit_pt)
            \<and> (\<forall>j<i.
                  distance_sqr_2d (tr (xs ! (hit_list ! i), ys ! (hit_list ! i))) hit_pt
                  < distance_sqr_2d (tr (xs ! (hit_list ! j), ys ! (hit_list ! j))) hit_pt) \<longrightarrow>
            find_hit_vertex tr pr2 hit_pt hit_list hits = Some (hit_list ! i))
       \<and> (xs = line_xdata lin \<and> ys = line_ydata lin \<and> pr2 = (pickradius lin)\<^sup>2
            \<and> hit_pt = (ev_x ev, ev_y ev) \<longrightarrow>
            process_hit_location tr lin ev hit_list =
              (case find_hit_vertex tr pr2 hit_pt hit_list hits of
                 None \<Rightarrow>
                   (case hit_list of
                      [] \<Rightarrow> Inl IndexError
                    | h # _ \<Rightarrow> Inr (Seq (slice2 xs h), Seq (slice2 ys h), []))
               | Some v \<Rightarrow> Inr (Scalar (xs ! v), Scalar (ys ! v), ''s'')))
       \<and> (line_contains tk (line f) ev = (True, hit_list) \<and> dgm f = Some d
            \<and> xs = py_slice (slice_start d) (slice_stop d) (rays (lens f) Pr (type_sel d))
            \<and> ys = py_slice (slice_start d) (slice_stop d) (rays (lens f) Ax (type_sel d))
            \<and> tr = transData tk \<and> pr2 = (pickradius (line f))\<^sup>2
            \<and> hit_pt = (ev_x ev, ev_y ev) \<longrightarrow>
            pdf_on_press tk ev f =
              (case find_hit_vertex tr pr2 hit_pt hit_list hits of
                 None \<Rightarrow> (f, None)
               | Some v \<Rightarrow> (f\<lparr>vertex := Some (v + slice_start d)\<rparr>, None)))"
    (is "?P1 \<and> ?P2 \<and> ?P3 \<and> ?P4 \<and> ?P5")
proof -
  let ?D = "\<lambda>i. distance_sqr_2d (tr (xs ! (hit_list ! i), ys ! (hit_list ! i))) hit_pt"
  let ?F = "find_hit_vertex tr pr2 hit_pt hit_list hits"
  have abc: "?P1 \<and> ?P2 \<and> ?P3"
  proof (cases "hit_list = []")
    case True
    then show ?thesis by (simp add: find_hit_vertex_empty)
  next
    case False
    obtain i0 where i0: "i0 < length hit_list"
      and least: "\<forall>j<length hit_list. ?D i0 \<le> ?D j"
      and first: "\<forall>j<i0. ?D i0 < ?D j"
      and res: "?F = (if ?D i0 < 10000000000 \<and> ?D i0 < pr2 then Some (hit_list ! i0) else None)"
      using find_hit_vertex_index [OF lh False, of tr hit_pt pr2] by blast
    have a: ?P1
    proof (intro allI impI)
      fix v assume "?F = Some v"
      then have "hit_list ! i0 = v \<and> ?D i0 < pr2"
        using res by (simp split: if_splits)
      then show "\<exists>i<length hit_list. hit_list ! i = v \<and> ?D i < pr2
                   \<and> (\<forall>j<length hit_list. ?D i \<le> ?D j)"
        using i0 least by blast
    qed
    have b: ?P2
    proof
      assume "\<forall>j<length hit_list. pr2 \<le> ?D j"
      then have "pr2 \<le> ?D i0" using i0 by simp
      then show "?F = None" using res by simp
    qed
    have c: ?P3
    proof (intro allI impI)
      fix i assume i: "i < length hit_list"
      assume h: "?D i < pr2 \<and> ?D i < 10000000000 \<and> (\<forall>j<length hit_list. ?D i \<le> ?D j)
                 \<and> (\<forall>j<i. ?D i < ?D j)"
      have eq: "?D i = ?D i0"
        using h i i0 least by (simp add: order_antisym)
      have "\<not> i0 < i"
        using h eq by auto
      moreover have "\<not> i < i0"
        using first eq by auto
      ultimately have "i = i0" by simp
      then show "?F = Some (hit_list ! i)"
        using res h by simp
    qed
    from a b c show ?thesis by simp
  qed
  have d: ?P4
  proof
    assume h: "xs = line_xdata lin \<and> ys = line_ydata lin \<and> pr2 = (pickradius lin)\<^sup>2
               \<and> hit_pt = (ev_x ev, ev_y ev)"
    have e1: "xs = line_xdata lin" and e2: "ys = line_ydata lin"
      and e3: "pr2 = (pickradius lin)\<^sup>2" and e4: "hit_pt = (ev_x ev, ev_y ev)"
      using h by simp_all
    have "line_hits (line_xdata lin) (line_ydata lin) hit_list = Inr hits"
      using lh e1 e2 by simp
    from process_hit_location_find [OF this, of tr ev]
    show "process_hit_location tr lin ev hit_list =
              (case find_hit_vertex tr pr2 hit_pt hit_list hits of
                 None \<Rightarrow>
                   (case hit_list of
                      [] \<Rightarrow> Inl IndexError
                    | h # _ \<Rightarrow> Inr (Seq (slice2 xs h), Seq (slice2 ys h), []))
               | Some v \<Rightarrow> Inr (Scalar (xs ! v), Scalar (ys ! v), ''s''))"
      unfolding e1 e2 e3 e4 .
  qed
  have e: ?P5
  proof
    assume h: "line_contains tk (line f) ev = (True, hit_list) \<and> dgm f = Some d
            \<and> xs = py_slice (slice_start d) (slice_stop d) (rays (lens f) Pr (type_sel d))
            \<and> ys = py_slice (slice_start d) (slice_stop d) (rays (lens f) Ax (type_sel d))
            \<and> tr = transData tk \<and> pr2 = (pickradius (line f))\<^sup>2
            \<and> hit_pt = (ev_x ev, ev_y ev)"
    have c: "line_contains tk (line f) ev = (True, hit_list)" and g: "dgm f = Some d"
      and e1: "xs = py_slice (slice_start d) (slice_stop d) (rays (lens f) Pr (type_sel d))"
      and e2: "ys = py_slice (slice_start d) (slice_stop d) (rays (lens f) Ax (type_sel d))"
      and e3: "tr = transData tk" and e4: "pr2 = (pickradius (line f))\<^sup>2"
      and e5: "hit_pt = (ev_x ev, ev_y ev)"
      using h by simp_all
    have l: "line_hits (py_slice (slice_start d) (slice_stop d) (rays (lens f) Pr (type_sel d)))
           (py_slice (slice_start d) (slice_stop d) (rays (lens f) Ax (type_sel d))) hit_list = Inr hits"
      using lh e1 e2 by simp
    from pdf_on_press_find [OF c g l]
    show "pdf_on_press tk ev f =
              (case find_hit_vertex tr pr2 hit_pt hit_list hits of
                 None \<Rightarrow> (f, None)
               | Some v \<Rightarrow> (f\<lparr>vertex := Some (v + slice_start d)\<rparr>, None))"
      unfolding e3 e4 e5 .
  qed
  from abc d e show ?thesis by simp
qed


text \<open>
  An instance: two candidates at squared distances 18 and 1 from the cursor, pick radius 6.
\<close>

theorem hit_test_selects_nearest_vertex_witness:
  "line_hits [0, 3, 10] [0, 4, 0] [0, 1] = Inr [(0, 0), (3, 4)]
   \<and> find_hit_vertex (\<lambda>p. p) 36 (3, 3) [0, 1] [(0, 0), (3, 4)] = Some 1"
proof -
  have h: "line_hits [0, 3, 10] [0, 4, 0] [0, 1] = Inr [(0, 0), (3, 4)]"
    by simp
  note t = hit_test_selects_nearest_vertex [OF h, where tr = "\<lambda>p. p" and ?pr2.0 = 36 and hit_pt = "(3, 3)"]
  note c = t [THEN conjunct2, THEN conjunct2, THEN conjunct1, rule_format, of 1]
  have "find_hit_vertex (\<lambda>p. p) 36 (3, 3) [0, 1] [(0, 0), (3, 4)] = Some ([0, 1] ! 1)"
    by (rule c) (auto simp add: distance_sqr_2d_def less_Suc_eq)
  then show ?thesis
    using h by simp
qed

subsection \<open>Press and release in the paraxial design figure\<close>

lemmas example_pdf_defs = example_pdf_def setup_dgm_type_def slp_dgm_def ht_dgm_def py_slice_def
  example_lens_def Let_def example_penv_def mouse_at_def find_hit_vertex_def distance_sqr_2d_def

lemma pdf_on_release_falsy:
  "\<not> truthy (vertex f) \<Longrightarrow> pdf_on_release tk ev f = (f, None)"
  by (cases "vertex f") (simp_all add: pdf_on_release_def)

lemma pdf_on_release_truthy:
  "truthy (vertex f) \<Longrightarrow>
     snd (pdf_on_release tk ev f) \<noteq> None \<or> vertex (fst (pdf_on_release tk ev f)) = None"
  by (cases "vertex f") (auto simp add: pdf_on_release_def Let_def split: option.splits sum.splits)

lemma pdf_on_release_edit:
  assumes v: "vertex f = Some v" and nz: "v \<noteq> 0" and d: "dgm f = Some d"
    and lx: "v < length (rays (lens f) Pr (type_sel d))"
    and ly: "v < length (rays (lens f) Ax (type_sel d))"
  shows "pdf_on_release tk ev f =
           (let l1 = set_ray Pr (type_sel d) ((rays (lens f) Pr (type_sel d))[v := xdata ev]) (lens f);
                l2 = set_ray Ax (type_sel d) ((rays (lens f) Ax (type_sel d))[v := ydata ev]) l1;
                l3 = call_apply_data tk (apply_data d) l2 v (opt_inv tk (seq_model f))
            in (f\<lparr>lens := l3,
                   seq_model := paraxial_lens_to_seq_model tk (seq_model f) l3,
                   refresh_calls := Suc (refresh_calls f),
                   vertex := None\<rparr>, None))"
  using assms
  by (simp add: pdf_on_release_def truthy_def set_item_def set_ray_def Let_def)

text \<open>
  Claim C8. \<^verbatim>\<open>ParaxialDesignFigure.on_release\<close> leaves the figure as it is and raises
  nothing exactly when the stored vertex is not truthy (\<^verbatim>\<open>None\<close> or the index 0). With a
  stored index other than 0 that is in range, the model edit is applied: the data
  coordinates of the event are written into the chief and the axial ray of the lens at
  that index, \<^verbatim>\<open>apply_data\<close> (\<^verbatim>\<open>ht_to_slope\<close> or \<^verbatim>\<open>slope_to_ht\<close>, by diagram type) is
  called on the written lens with the index and the optical invariant of the sequential
  model, the sequential model is updated from the resulting lens, \<^verbatim>\<open>refresh_gui\<close> is
  called once and the stored vertex is reset to \<^verbatim>\<open>None\<close>. In the slope diagram the data
  slice starts at 0, so a press that picks the first vertex stores the index 0, and the
  release after it applies no edit, does not call \<^verbatim>\<open>refresh_gui\<close> and leaves the stored
  vertex at 0.
\<close>

theorem release_edits_only_truthy_vertex:
  "((pdf_on_release tk ev f = (f, None)) = (\<not> truthy (vertex f)))
   \<and> (vertex f = Some v \<and> v \<noteq> 0 \<and> dgm f = Some d
        \<and> v < length (rays (lens f) Pr (type_sel d))
        \<and> v < length (rays (lens f) Ax (type_sel d)) \<longrightarrow>
        (\<exists>l1 l2 l3.
           l1 = set_ray Pr (type_sel d) ((rays (lens f) Pr (type_sel d))[v := xdata ev]) (lens f)
         \<and> l2 = set_ray Ax (type_sel d) ((rays (lens f) Ax (type_sel d))[v := ydata ev]) l1
         \<and> rays l2 Pr (type_sel d) ! v = xdata ev
         \<and> rays l2 Ax (type_sel d) ! v = ydata ev
         \<and> l3 = (case apply_data d of
                   Ht_to_slope \<Rightarrow> ht_to_slope tk l2 v (opt_inv tk (seq_model f))
                 | Slope_to_ht \<Rightarrow> slope_to_ht tk l2 v (opt_inv tk (seq_model f)))
         \<and> pdf_on_release tk ev f =
             (f\<lparr>lens := l3,
                seq_model := paraxial_lens_to_seq_model tk (seq_model f) l3,
                refresh_calls := Suc (refresh_calls f),
                vertex := None\<rparr>, None)))
   \<and> (line_contains tk (line f) ev0 = (True, hit_list)
        \<and> dgm f = setup_dgm_type slp_dgm old
        \<and> line_hits (py_slice 0 (Some (- 1)) (rays (lens f) Pr Slp))
             (py_slice 0 (Some (- 1)) (rays (lens f) Ax Slp)) hit_list = Inr hits
        \<and> find_hit_vertex (transData tk) ((pickradius (line f))\<^sup>2) (ev_x ev0, ev_y ev0)
             hit_list hits = Some 0 \<longrightarrow>
        pdf_on_press tk ev0 f = (f\<lparr>vertex := Some 0\<rparr>, None)
        \<and> pdf_on_release tk ev (f\<lparr>vertex := Some 0\<rparr>) = (f\<lparr>vertex := Some 0\<rparr>, None))"
  (is "?P1 \<and> ?P2 \<and> ?P3")
proof -
  have p1: ?P1
  proof
    assume e: "pdf_on_release tk ev f = (f, None)"
    show "\<not> truthy (vertex f)"
    proof
      assume t: "truthy (vertex f)"
      then have "vertex f \<noteq> None" by (auto simp: truthy_def split: option.splits)
      moreover have "snd (pdf_on_release tk ev f) \<noteq> None \<or> vertex (fst (pdf_on_release tk ev f)) = None"
        using t by (rule pdf_on_release_truthy)
      ultimately show False using e by simp
    qed
  next
    assume "\<not> truthy (vertex f)"
    then show "pdf_on_release tk ev f = (f, None)" by (rule pdf_on_release_falsy)
  qed
  have p2: ?P2
  proof
    assume h: "vertex f = Some v \<and> v \<noteq> 0 \<and> dgm f = Some d
        \<and> v < length (rays (lens f) Pr (type_sel d))
        \<and> v < length (rays (lens f) Ax (type_sel d))"
    define l1 where "l1 = set_ray Pr (type_sel d) ((rays (lens f) Pr (type_sel d))[v := xdata ev]) (lens f)"
    define l2 where "l2 = set_ray Ax (type_sel d) ((rays (lens f) Ax (type_sel d))[v := ydata ev]) l1"
    define l3 where "l3 = (case apply_data d of
                   Ht_to_slope \<Rightarrow> ht_to_slope tk l2 v (opt_inv tk (seq_model f))
                 | Slope_to_ht \<Rightarrow> slope_to_ht tk l2 v (opt_inv tk (seq_model f)))"
    have l3': "l3 = call_apply_data tk (apply_data d) l2 v (opt_inv tk (seq_model f))"
      by (simp add: l3_def call_apply_data_def)
    have "pdf_on_release tk ev f =
           (let l1 = set_ray Pr (type_sel d) ((rays (lens f) Pr (type_sel d))[v := xdata ev]) (lens f);
                l2 = set_ray Ax (type_sel d) ((rays (lens f) Ax (type_sel d))[v := ydata ev]) l1;
                l3 = call_apply_data tk (apply_data d) l2 v (opt_inv tk (seq_model f))
            in (f\<lparr>lens := l3,
                   seq_model := paraxial_lens_to_seq_model tk (seq_model f) l3,
                   refresh_calls := Suc (refresh_calls f),
                   vertex := None\<rparr>, None))"
      using h by (intro pdf_on_release_edit) simp_all
    then have r: "pdf_on_release tk ev f =
             (f\<lparr>lens := l3,
                seq_model := paraxial_lens_to_seq_model tk (seq_model f) l3,
                refresh_calls := Suc (refresh_calls f),
                vertex := None\<rparr>, None)"
      by (simp add: Let_def l1_def l2_def l3')
    have wx: "rays l2 Pr (type_sel d) ! v = xdata ev"
      using h by (simp add: l2_def l1_def set_ray_def)
    have wy: "rays l2 Ax (type_sel d) ! v = ydata ev"
      using h by (simp add: l2_def l1_def set_ray_def)
    show "\<exists>l1 l2 l3.
           l1 = set_ray Pr (type_sel d) ((rays (lens f) Pr (type_sel d))[v := xdata ev]) (lens f)
         \<and> l2 = set_ray Ax (type_sel d) ((rays (lens f) Ax (type_sel d))[v := ydata ev]) l1
         \<and> rays l2 Pr (type_sel d) ! v = xdata ev
         \<and> rays l2 Ax (type_sel d) ! v = ydata ev
         \<and> l3 = (case apply_data d of
                   Ht_to_slope \<Rightarrow> ht_to_slope tk l2 v (opt_inv tk (seq_model f))
                 | Slope_to_ht \<Rightarrow> slope_to_ht tk l2 v (opt_inv tk (seq_model f)))
         \<and> pdf_on_release tk ev f =
             (f\<lparr>lens := l3,
                seq_model := paraxial_lens_to_seq_model tk (seq_model f) l3,
                refresh_calls := Suc (refresh_calls f),
                vertex := None\<rparr>, None)"
      apply (rule exI [of _ l1], rule exI [of _ l2], rule exI [of _ l3])
      using l1_def l2_def l3_def r wx wy by blast
  qed
  have p3: ?P3
  proof
    assume h: "line_contains tk (line f) ev0 = (True, hit_list)
        \<and> dgm f = setup_dgm_type slp_dgm old
        \<and> line_hits (py_slice 0 (Some (- 1)) (rays (lens f) Pr Slp))
             (py_slice 0 (Some (- 1)) (rays (lens f) Ax Slp)) hit_list = Inr hits
        \<and> find_hit_vertex (transData tk) ((pickradius (line f))\<^sup>2) (ev_x ev0, ev_y ev0)
             hit_list hits = Some 0"
    define d where "d = \<lparr>type_sel = Slp, slice_start = 0, slice_stop = Some (- 1), apply_data = Slope_to_ht\<rparr>"
    have c: "line_contains tk (line f) ev0 = (True, hit_list)" using h by simp
    have g: "dgm f = Some d"
      using h by (simp add: setup_dgm_type_def slp_dgm_def ht_dgm_def d_def)
    have l: "line_hits (py_slice (slice_start d) (slice_stop d) (rays (lens f) Pr (type_sel d)))
           (py_slice (slice_start d) (slice_stop d) (rays (lens f) Ax (type_sel d))) hit_list = Inr hits"
      using h by (simp add: d_def)
    have "pdf_on_press tk ev0 f = (f\<lparr>vertex := Some 0\<rparr>, None)"
      using pdf_on_press_find [OF c g l] h by (simp add: d_def)
    moreover have "pdf_on_release tk ev (f\<lparr>vertex := Some 0\<rparr>) = (f\<lparr>vertex := Some 0\<rparr>, None)"
      by (rule pdf_on_release_falsy) (simp add: truthy_def)
    ultimately show "pdf_on_press tk ev0 f = (f\<lparr>vertex := Some 0\<rparr>, None)
        \<and> pdf_on_release tk ev (f\<lparr>vertex := Some 0\<rparr>) = (f\<lparr>vertex := Some 0\<rparr>, None)"
      by simp
  qed
  from p1 p2 p3 show ?thesis by simp
qed

text \<open>
  Two instances. In the height diagram of the tracing figure, with the vertex 1 stored, a
  release at data coordinates (7, 8) writes 7 and 8 into the rays, calls \<^verbatim>\<open>ht_to_slope\<close>
  with the vertex 1 and the optical invariant 5 (the tracing toolkit records both in the
  axial slopes), updates the sequential model from the lens, calls \<^verbatim>\<open>refresh_gui\<close> and
  resets the vertex. In the slope diagram of the example figure a press at pixel (1, 1)
  picks the first vertex, and the release after it changes nothing.
\<close>

theorem release_edits_only_truthy_vertex_witness:
  "rays (lens (fst (pdf_on_release tracing_penv (mouse_at 7 8) tracing_pdf))) Pr Ht = [0, 7, 10, 12]
   \<and> rays (lens (fst (pdf_on_release tracing_penv (mouse_at 7 8) tracing_pdf))) Ax Ht = [0, 8, 0, 1]
   \<and> rays (lens (fst (pdf_on_release tracing_penv (mouse_at 7 8) tracing_pdf))) Ax Slp = [1, 5]
   \<and> seq_model (fst (pdf_on_release tracing_penv (mouse_at 7 8) tracing_pdf)) = [0, 7, 10, 12]
   \<and> refresh_calls (fst (pdf_on_release tracing_penv (mouse_at 7 8) tracing_pdf)) = 1
   \<and> vertex (fst (pdf_on_release tracing_penv (mouse_at 7 8) tracing_pdf)) = None
   \<and> snd (pdf_on_release tracing_penv (mouse_at 7 8) tracing_pdf) = None
   \<and> pdf_on_press example_penv (mouse_at 1 1) (example_pdf slp_dgm)
     = ((example_pdf slp_dgm)\<lparr>vertex := Some 0\<rparr>, None)
   \<and> pdf_on_release example_penv (mouse_at 7 8) ((example_pdf slp_dgm)\<lparr>vertex := Some 0\<rparr>)
     = ((example_pdf slp_dgm)\<lparr>vertex := Some 0\<rparr>, None)"
proof -
  note t = release_edits_only_truthy_vertex [where tk = example_penv and f = "example_pdf slp_dgm"
      and ?ev0.0 = "mouse_at 1 1" and ev = "mouse_at 7 8" and hit_list = "[0, 1]" and old = None
      and hits = "[(0, 0), (3, 4)]"]
  note c = t [THEN conjunct2, THEN conjunct2, rule_format]
  have second: "pdf_on_press example_penv (mouse_at 1 1) (example_pdf slp_dgm)
     = ((example_pdf slp_dgm)\<lparr>vertex := Some 0\<rparr>, None)
   \<and> pdf_on_release example_penv (mouse_at 7 8) ((example_pdf slp_dgm)\<lparr>vertex := Some 0\<rparr>)
     = ((example_pdf slp_dgm)\<lparr>vertex := Some 0\<rparr>, None)"
    by (rule c) (simp add: example_pdf_defs)
  define d where "d = \<lparr>type_sel = Ht, slice_start = 1, slice_stop = None, apply_data = Ht_to_slope\<rparr>"
  have h: "vertex tracing_pdf = Some 1 \<and> (1::nat) \<noteq> 0 \<and> dgm tracing_pdf = Some d
        \<and> 1 < length (rays (lens tracing_pdf) Pr (type_sel d))
        \<and> 1 < length (rays (lens tracing_pdf) Ax (type_sel d))"
    by (simp add: tracing_pdf_def d_def setup_dgm_type_def ht_dgm_def example_lens_def)
  note u = release_edits_only_truthy_vertex [where tk = tracing_penv and f = tracing_pdf
      and ev = "mouse_at 7 8" and v = 1 and d = d, THEN conjunct2, THEN conjunct1, rule_format, OF h]
  from u obtain l1 l2 l3 where
      l1: "l1 = set_ray Pr (type_sel d) ((rays (lens tracing_pdf) Pr (type_sel d))[1 := xdata (mouse_at 7 8)]) (lens tracing_pdf)"
    and l2: "l2 = set_ray Ax (type_sel d) ((rays (lens tracing_pdf) Ax (type_sel d))[1 := ydata (mouse_at 7 8)]) l1"
    and l3: "l3 = (case apply_data d of
                   Ht_to_slope \<Rightarrow> ht_to_slope tracing_penv l2 1 (opt_inv tracing_penv (seq_model tracing_pdf))
                 | Slope_to_ht \<Rightarrow> slope_to_ht tracing_penv l2 1 (opt_inv tracing_penv (seq_model tracing_pdf)))"
    and r: "pdf_on_release tracing_penv (mouse_at 7 8) tracing_pdf =
             (tracing_pdf\<lparr>lens := l3,
                seq_model := paraxial_lens_to_seq_model tracing_penv (seq_model tracing_pdf) l3,
                refresh_calls := Suc (refresh_calls tracing_pdf),
                vertex := None\<rparr>, None)"
    by blast
  have first: "rays l3 Pr Ht = [0, 7, 10, 12] \<and> rays l3 Ax Ht = [0, 8, 0, 1] \<and> rays l3 Ax Slp = [1, 5]
      \<and> paraxial_lens_to_seq_model tracing_penv (seq_model tracing_pdf) l3 = [0, 7, 10, 12]
      \<and> refresh_calls tracing_pdf = 0"
    by (simp add: l3 l2 l1 d_def tracing_penv_def tracing_pdf_def example_lens_def set_ray_def
        mouse_at_def)
  show ?thesis
    unfolding r using first second by simp
qed

text \<open>
  Claim C2. A release that follows a press which selected a vertex is claimed to write the
  event's data coordinates into the lens, apply the data, update the sequential model,
  call \<^verbatim>\<open>refresh_gui\<close> and reset the stored vertex. In the slope diagram of the example
  figure the press at pixel (1, 1) selects the first vertex and stores the index 0; the
  release at data coordinates (7, 8) then leaves the figure as the press left it: the lens
  still holds the old value, \<^verbatim>\<open>refresh_gui\<close> has not been called and the stored vertex
  is still 0. For a stored index other than 0 the release does what the claim says
  (\<open>pdf_on_release_edit\<close>).
\<close>

theorem release_after_picking_first_slope_vertex:
  "vertex (example_pdf slp_dgm) = None
   \<and> vertex (fst (pdf_on_press example_penv (mouse_at 1 1) (example_pdf slp_dgm))) = Some 0
   \<and> pdf_on_release example_penv (mouse_at 7 8)
         (fst (pdf_on_press example_penv (mouse_at 1 1) (example_pdf slp_dgm)))
       = (fst (pdf_on_press example_penv (mouse_at 1 1) (example_pdf slp_dgm)), None)
   \<and> rays (lens (fst (pdf_on_release example_penv (mouse_at 7 8)
         (fst (pdf_on_press example_penv (mouse_at 1 1) (example_pdf slp_dgm)))))) Pr Slp
       = [0, 3, 10, 12]
   \<and> refresh_calls (fst (pdf_on_release example_penv (mouse_at 7 8)
         (fst (pdf_on_press example_penv (mouse_at 1 1) (example_pdf slp_dgm))))) = 0
   \<and> vertex (fst (pdf_on_release example_penv (mouse_at 7 8)
         (fst (pdf_on_press example_penv (mouse_at 1 1) (example_pdf slp_dgm))))) = Some 0"
proof -
  have p: "pdf_on_press example_penv (mouse_at 1 1) (example_pdf slp_dgm)
             = ((example_pdf slp_dgm)\<lparr>vertex := Some 0\<rparr>, None)"
    by (simp add: example_pdf_defs pdf_on_press_def)
  have r: "pdf_on_release example_penv (mouse_at 7 8) ((example_pdf slp_dgm)\<lparr>vertex := Some 0\<rparr>)
             = ((example_pdf slp_dgm)\<lparr>vertex := Some 0\<rparr>, None)"
    by (simp add: pdf_on_release_def truthy_def)
  have v: "vertex (example_pdf slp_dgm) = None"
    by (simp add: example_pdf_def Let_def)
  have l: "rays (lens (example_pdf slp_dgm)) Pr Slp = [0, 3, 10, 12]"
    by (simp add: example_pdf_def example_lens_def Let_def)
  have c: "refresh_calls (example_pdf slp_dgm) = 0"
    by (simp add: example_pdf_def Let_def)
  show ?thesis
    by (simp add: p r v l c)
qed

text \<open>
  Claim C7, as amended. A press whose cursor is not over the plotted line, or is over it
  with no vertex within the pick radius, raises nothing and leaves the figure as it is: it
  stores no vertex and keeps the one stored before. When no vertex was stored before the
  press, the release after it leaves the lens, the sequential model and the stored
  vertex as they are and does not call \<^verbatim>\<open>refresh_gui\<close>.
\<close>

theorem miss_press_then_release_no_edit:
  assumes "fst (line_contains tk (line f) ev) = False
           \<or> (dgm f = Some d
              \<and> line_hits (py_slice (slice_start d) (slice_stop d) (rays (lens f) Pr (type_sel d)))
                   (py_slice (slice_start d) (slice_stop d) (rays (lens f) Ax (type_sel d)))
                   (snd (line_contains tk (line f) ev)) = Inr hits
              \<and> find_hit_vertex (transData tk) ((pickradius (line f))\<^sup>2) (ev_x ev, ev_y ev)
                   (snd (line_contains tk (line f) ev)) hits = None)"
  shows "pdf_on_press tk ev f = (f, None)
         \<and> (vertex f = None \<longrightarrow>
              pdf_on_release tk ev' (fst (pdf_on_press tk ev f)) = (f, None))"
proof -
  obtain hit hit_list where c: "line_contains tk (line f) ev = (hit, hit_list)"
    by (cases "line_contains tk (line f) ev")
  have p: "pdf_on_press tk ev f = (f, None)"
  proof (cases hit)
    case False
    then show ?thesis using c by (simp add: pdf_on_press_miss)
  next
    case True
    then have g: "dgm f = Some d"
      and l: "line_hits (py_slice (slice_start d) (slice_stop d) (rays (lens f) Pr (type_sel d)))
                (py_slice (slice_start d) (slice_stop d) (rays (lens f) Ax (type_sel d))) hit_list = Inr hits"
      and n: "find_hit_vertex (transData tk) ((pickradius (line f))\<^sup>2) (ev_x ev, ev_y ev) hit_list hits = None"
      using assms c by simp_all
    have c': "line_contains tk (line f) ev = (True, hit_list)"
      using c True by simp
    show ?thesis
      using pdf_on_press_find [OF c' g l] n by simp
  qed
  have "pdf_on_release tk ev' f = (f, None)" if "vertex f = None"
    using that by (intro pdf_on_release_falsy) (simp add: truthy_def)
  then show ?thesis
    using p by simp
qed

text \<open>
  The height diagram of the example figure: the cursor at pixel (50, 50) is over the line
  and farther than the pick radius from both candidates.
\<close>

theorem miss_press_then_release_no_edit_witness:
  "pdf_on_press example_penv (mouse_at 50 50) (example_pdf ht_dgm) = (example_pdf ht_dgm, None)
   \<and> pdf_on_release example_penv (mouse_at 7 8)
        (fst (pdf_on_press example_penv (mouse_at 50 50) (example_pdf ht_dgm)))
      = (example_pdf ht_dgm, None)"
proof -
  have h: "fst (line_contains example_penv (line (example_pdf ht_dgm)) (mouse_at 50 50)) = False
           \<or> (dgm (example_pdf ht_dgm) = Some \<lparr>type_sel = Ht, slice_start = 1, slice_stop = None, apply_data = Ht_to_slope\<rparr>
              \<and> line_hits (py_slice (slice_start \<lparr>type_sel = Ht, slice_start = 1, slice_stop = None, apply_data = Ht_to_slope\<rparr>)
                     (slice_stop \<lparr>type_sel = Ht, slice_start = 1, slice_stop = None, apply_data = Ht_to_slope\<rparr>)
                     (rays (lens (example_pdf ht_dgm)) Pr (type_sel \<lparr>type_sel = Ht, slice_start = 1, slice_stop = None, apply_data = Ht_to_slope\<rparr>)))
                   (py_slice (slice_start \<lparr>type_sel = Ht, slice_start = 1, slice_stop = None, apply_data = Ht_to_slope\<rparr>)
                     (slice_stop \<lparr>type_sel = Ht, slice_start = 1, slice_stop = None, apply_data = Ht_to_slope\<rparr>)
                     (rays (lens (example_pdf ht_dgm)) Ax (type_sel \<lparr>type_sel = Ht, slice_start = 1, slice_stop = None, apply_data = Ht_to_slope\<rparr>)))
                   (snd (line_contains example_penv (line (example_pdf ht_dgm)) (mouse_at 50 50))) = Inr [(3, 4), (10, 0)]
              \<and> find_hit_vertex (transData example_penv) ((pickradius (line (example_pdf ht_dgm)))\<^sup>2)
                   (ev_x (mouse_at 50 50), ev_y (mouse_at 50 50))
                   (snd (line_contains example_penv (line (example_pdf ht_dgm)) (mouse_at 50 50))) [(3, 4), (10, 0)] = None)"
    by (simp add: example_pdf_defs)
  have v: "vertex (example_pdf ht_dgm) = None"
    by (simp add: example_pdf_def Let_def)
  note t = miss_press_then_release_no_edit [OF h, of "mouse_at 7 8"]
  from t [THEN conjunct1] t [THEN conjunct2, rule_format, OF v]
  show ?thesis by (rule conjI)
qed

text \<open>
  Claim C7 as stated fails when a vertex is already stored. From the example figure with no
  vertex stored, a press at pixel (3, 3) picks the vertex 1; a second press at pixel
  (500, 3), with no release between them, is not over the line and leaves the vertex 1
  stored; the release at data coordinates (7, 8) then writes the lens and calls
  \<^verbatim>\<open>refresh_gui\<close>.
\<close>

theorem miss_press_after_pick_counterexample:
  "vertex (example_pdf ht_dgm) = None
   \<and> fst (line_contains example_penv
           (line (fst (pdf_on_press example_penv (mouse_at 3 3) (example_pdf ht_dgm))))
           (mouse_at 500 3)) = False
   \<and> vertex (fst (pdf_on_press example_penv (mouse_at 500 3)
        (fst (pdf_on_press example_penv (mouse_at 3 3) (example_pdf ht_dgm))))) = Some 1
   \<and> rays (lens (fst (pdf_on_release example_penv (mouse_at 7 8)
        (fst (pdf_on_press example_penv (mouse_at 500 3)
           (fst (pdf_on_press example_penv (mouse_at 3 3) (example_pdf ht_dgm)))))))) Pr Ht
      = [0, 7, 10, 12]
   \<and> rays (lens (fst (pdf_on_press example_penv (mouse_at 500 3)
           (fst (pdf_on_press example_penv (mouse_at 3 3) (example_pdf ht_dgm)))))) Pr Ht
      = [0, 3, 10, 12]
   \<and> refresh_calls (fst (pdf_on_release example_penv (mouse_at 7 8)
        (fst (pdf_on_press example_penv (mouse_at 500 3)
           (fst (pdf_on_press example_penv (mouse_at 3 3) (example_pdf ht_dgm))))))) = 1
   \<and> refresh_calls (fst (pdf_on_press example_penv (mouse_at 500 3)
           (fst (pdf_on_press example_penv (mouse_at 3 3) (example_pdf ht_dgm))))) = 0"
proof -
  have p1: "pdf_on_press example_penv (mouse_at 3 3) (example_pdf ht_dgm)
              = ((example_pdf ht_dgm)\<lparr>vertex := Some 1\<rparr>, None)"
    by (simp add: example_pdf_defs pdf_on_press_def)
  have p2: "pdf_on_press example_penv (mouse_at 500 3) ((example_pdf ht_dgm)\<lparr>vertex := Some 1\<rparr>)
              = ((example_pdf ht_dgm)\<lparr>vertex := Some 1\<rparr>, None)"
    by (simp add: example_pdf_defs pdf_on_press_def)
  have c: "fst (line_contains example_penv (line ((example_pdf ht_dgm)\<lparr>vertex := Some 1\<rparr>)) (mouse_at 500 3)) = False"
    by (simp add: example_penv_def mouse_at_def)
  have r: "rays (lens (fst (pdf_on_release example_penv (mouse_at 7 8) ((example_pdf ht_dgm)\<lparr>vertex := Some 1\<rparr>)))) Pr Ht = [0, 7, 10, 12]
           \<and> refresh_calls (fst (pdf_on_release example_penv (mouse_at 7 8) ((example_pdf ht_dgm)\<lparr>vertex := Some 1\<rparr>))) = 1"
    by (simp add: example_pdf_defs pdf_on_release_def truthy_def set_item_def set_ray_def call_apply_data_def)
  have i: "vertex (example_pdf ht_dgm) = None \<and> refresh_calls (example_pdf ht_dgm) = 0
           \<and> rays (lens (example_pdf ht_dgm)) Pr Ht = [0, 3, 10, 12]"
    by (simp add: example_pdf_def example_lens_def Let_def)
  show ?thesis
    unfolding p1 fst_conv p2
    using c r i by simp
qed

subsection \<open>Connecting and disconnecting events\<close>

lemma update_fresh_key:
  "k \<notin> fst ` set al \<Longrightarrow> AList.update k v al = al @ [(k, v)]"
  by (induction al) auto

lemma connect_loop_step:
  "connect_loop (p # ad) f =
     connect_loop ad
       (f\<lparr>event_dict := AList.update (fst p) (snd p) (event_dict f),
          canvas := snd (mpl_connect (fst p) (snd p) (canvas f)),
          callback_ids := map_option (\<lambda>ids. ids @ [fst (mpl_connect (fst p) (snd p) (canvas f))])
                            (callback_ids f)\<rparr>)"
  by (cases p) (simp add: Let_def split_def)

lemma event_dict_connect_loop:
  "distinct (map fst ad) \<Longrightarrow> fst ` set ad \<inter> fst ` set (event_dict f) = {} \<Longrightarrow>
     event_dict (connect_loop ad f) = event_dict f @ ad"
proof (induction ad arbitrary: f)
  case Nil
  then show ?case by simp
next
  case (Cons p ad)
  have fresh: "fst p \<notin> fst ` set (event_dict f)"
    using Cons.prems(2) by auto
  define f3 where "f3 = f\<lparr>event_dict := AList.update (fst p) (snd p) (event_dict f),
      canvas := snd (mpl_connect (fst p) (snd p) (canvas f)),
      callback_ids := map_option (\<lambda>ids. ids @ [fst (mpl_connect (fst p) (snd p) (canvas f))]) (callback_ids f)\<rparr>"
  have step: "connect_loop (p # ad) f = connect_loop ad f3"
    unfolding f3_def by (rule connect_loop_step)
  have ed: "event_dict f3 = event_dict f @ [p]"
    using fresh by (simp add: f3_def update_fresh_key)
  have "event_dict (connect_loop ad f3) = event_dict f3 @ ad"
  proof (rule Cons.IH)
    show "distinct (map fst ad)" using Cons.prems(1) by simp
    show "fst ` set ad \<inter> fst ` set (event_dict f3) = {}"
      using Cons.prems ed by auto
  qed
  then show ?case
    using step ed by simp
qed

lemma connect_loop_frame:
  "view_bbox (connect_loop ad f) = view_bbox f \<and> ax (connect_loop ad f) = ax f
   \<and> store (connect_loop ad f) = store f \<and> hilited (connect_loop ad f) = hilited f
   \<and> selected (connect_loop ad f) = selected f \<and> ext (connect_loop ad f) = ext f
   \<and> on_finished (connect_loop ad f) = on_finished f
   \<and> draws (canvas (connect_loop ad f)) = draws (canvas f)"
proof (induction ad arbitrary: f)
  case Nil
  then show ?case by simp
next
  case (Cons p ad)
  show ?case
    by (simp add: connect_loop_step Cons.IH mpl_connect_def)
qed

lemma event_dict_connect_events:
  "distinct (map fst d) \<Longrightarrow> event_dict f = [] \<Longrightarrow>
     event_dict (connect_events (Some d) f) = d"
  by (simp add: connect_events_def event_dict_connect_loop)

lemma disconnect_events_connected:
  "callback_ids f = Some ids \<Longrightarrow>
     disconnect_events f =
       Inr (event_dict f,
            f\<lparr>canvas := fold mpl_disconnect ids (canvas f), callback_ids := None, event_dict := []\<rparr>)"
  by (simp add: disconnect_events_def Let_def)

text \<open>
  Claim C10. For a figure whose events are connected (\<^verbatim>\<open>callback_ids\<close> is a list) and
  whose \<^verbatim>\<open>event_dict\<close> is a dictionary (no key twice), \<^verbatim>\<open>disconnect_events\<close> raises
  nothing, returns \<^verbatim>\<open>event_dict\<close> as it was and leaves it empty, and
  \<^verbatim>\<open>connect_events\<close> of the returned dictionary makes \<^verbatim>\<open>event_dict\<close> what it was
  before the disconnect. \<^verbatim>\<open>ZoomBoxAction\<close> uses this: on a plotted figure its constructor
  keeps the returned dictionary in \<^verbatim>\<open>saved_events\<close> and leaves \<^verbatim>\<open>event_dict\<close> empty, and
  its release callback makes \<^verbatim>\<open>event_dict\<close> what it was before the zoom box was
  registered.
\<close>

theorem disconnect_connect_roundtrip:
  assumes "callback_ids f = Some ids" and "distinct (map fst (event_dict f))"
  shows "(case disconnect_events f of
            Inl e \<Rightarrow> False
          | Inr (d, f1) \<Rightarrow>
              d = event_dict f \<and> event_dict f1 = []
              \<and> event_dict (connect_events (Some d) f1) = event_dict f)
         \<and> (ax f \<noteq> None \<longrightarrow>
              snd (register_zoom_box fin f) = None
              \<and> saved_events (fst (register_zoom_box fin f)) = Some (event_dict f)
              \<and> event_dict (fst (register_zoom_box fin f)) = []
              \<and> snd (zoom_box_on_release tk press_event release_event (fst (register_zoom_box fin f))) = None
              \<and> event_dict (fst (zoom_box_on_release tk press_event release_event
                                 (fst (register_zoom_box fin f)))) = event_dict f)"
proof -
  define f1 where "f1 = f\<lparr>canvas := fold mpl_disconnect ids (canvas f), callback_ids := None, event_dict := []\<rparr>"
  have d: "disconnect_events f = Inr (event_dict f, f1)"
    using assms(1) by (simp add: disconnect_events_connected f1_def)
  have e1: "event_dict f1 = []" by (simp add: f1_def)
  have rt: "event_dict (connect_events (Some (event_dict f)) g) = event_dict f" if "event_dict g = []" for g :: "'a figure"
    using assms(2) that by (rule event_dict_connect_events)
  have first: "(case disconnect_events f of
            Inl e \<Rightarrow> False
          | Inr (d, f1) \<Rightarrow>
              d = event_dict f \<and> event_dict f1 = []
              \<and> event_dict (connect_events (Some d) f1) = event_dict f)"
    using d e1 rt [of f1] by simp
  have second: "snd (register_zoom_box fin f) = None
              \<and> saved_events (fst (register_zoom_box fin f)) = Some (event_dict f)
              \<and> event_dict (fst (register_zoom_box fin f)) = []
              \<and> snd (zoom_box_on_release tk press_event release_event (fst (register_zoom_box fin f))) = None
              \<and> event_dict (fst (zoom_box_on_release tk press_event release_event
                                 (fst (register_zoom_box fin f)))) = event_dict f"
    if a: "ax f \<noteq> None"
  proof -
    obtain a0 where a0: "ax f = Some a0" using a by auto
    define g where "g = f1\<lparr>saved_events := Some (event_dict f), rubber_box := True,
                       do_action := ZoomBoxIdle, on_finished := fin\<rparr>"
    have r: "register_zoom_box fin f = (g, None)"
      using d a0 by (simp add: register_zoom_box_def f1_def g_def ok_def)
    define bb :: bbox where "bb = ((xdata press_event, ydata press_event), (xdata release_event, ydata release_event))"
    define g3 where "g3 = g\<lparr>view_bbox := Some bb,
        ax := Some (set_ylim tk (snd (fst bb)) (snd (snd bb)) (set_xlim tk (fst (fst bb)) (fst (snd bb)) a0)),
        canvas := draw (canvas g), rubber_box := False\<rparr>"
    have z: "zoom_box_on_release tk press_event release_event g
               = (action_complete (connect_events (Some (event_dict f)) g3), None)"
      using a0
      by (simp add: zoom_box_on_release_def set_view_bbox_def update_axis_limits_def then_do_def
          ok_def raise_def Let_def g_def f1_def g3_def bb_def)
    have "event_dict g3 = []" by (simp add: g3_def g_def f1_def)
    then have "event_dict (connect_events (Some (event_dict f)) g3) = event_dict f"
      by (rule rt)
    then have "event_dict (action_complete (connect_events (Some (event_dict f)) g3)) = event_dict f"
      by (simp add: action_complete_def split: option.splits)
    then show ?thesis
      using r z by (simp add: g_def f1_def)
  qed
  from first second show ?thesis by blast
qed


text \<open>The example figure, connected to its three default handlers.\<close>

theorem disconnect_connect_roundtrip_witness:
  "(case disconnect_events example_figure of
      Inl e \<Rightarrow> False
    | Inr (d, f1) \<Rightarrow>
        d = default_actions \<and> event_dict f1 = []
        \<and> event_dict (connect_events (Some d) f1) = default_actions)
   \<and> event_dict (fst (register_zoom_box None example_figure)) = []
   \<and> event_dict (fst (zoom_box_on_release example_env (mouse_at 1 2) (mouse_at 5 6)
                        (fst (register_zoom_box None example_figure)))) = default_actions"
proof -
  have h1: "callback_ids example_figure = Some [0, 1, 2]"
    by (simp add: example_figure_def)
  have ed: "event_dict example_figure = default_actions"
    by (simp add: example_figure_def)
  have h2: "distinct (map fst (event_dict example_figure))"
    by (simp add: ed default_actions_def)
  have a: "ax example_figure \<noteq> None"
    by (simp add: example_figure_def)
  note t = disconnect_connect_roundtrip [OF h1 h2, of None example_env "mouse_at 1 2" "mouse_at 5 6"]
  note t1 = t [THEN conjunct1, unfolded ed]
  note t2 = t [THEN conjunct2, rule_format, OF a, unfolded ed]
  from t1 t2 show ?thesis by blast
qed

subsection \<open>Zoom\<close>

lemma cla_const: "cla a = \<lparr>xlim = (0, 1), ylim = (0, 1), children = []\<rparr>"
  by (cases a) (simp add: cla_def)

lemma connect_events_frame:
  "view_bbox (connect_events d f) = view_bbox f \<and> ax (connect_events d f) = ax f
   \<and> store (connect_events d f) = store f \<and> hilited (connect_events d f) = hilited f
   \<and> selected (connect_events d f) = selected f \<and> ext (connect_events d f) = ext f
   \<and> draws (canvas (connect_events d f)) = draws (canvas f)"
  by (simp add: connect_events_def connect_loop_frame)

lemma plot_ok:
  assumes "(if do_scale_bounds f
            then Some (scale_bounds tk (sys_bbox f) (oversize_factor f))
            else view_bbox f) = Some b"
  shows "snd (plot tk f) = None \<and> view_bbox (fst (plot tk f)) = Some b
         \<and> ax (fst (plot tk f)) =
             Some (draw_axes tk (header f) (x_label f) (y_label f) (do_draw_axes f)
                     (ax_set_facecolor tk
                        (draw_frame tk (do_draw_frame f)
                           (set_ylim tk (snd (fst b)) (snd (snd b))
                              (set_xlim tk (fst (fst b)) (fst (snd b))
                                 (set_aspect tk (aspect f)
                                    (snd (add_artists (artists f)
                                            (store f, case ax f of
                                                        None \<Rightarrow> add_subplot tk (aspect f)
                                                      | Some a \<Rightarrow> cla a)))))))))
         \<and> draws (canvas (fst (plot tk f))) = Suc (draws (canvas f))"
proof (cases "do_scale_bounds f")
  case True
  then show ?thesis
    using assms
    by (simp add: plot_def Let_def split_def update_axis_limits_def then_do_def ok_def raise_def
        connect_events_frame draw_def)
next
  case False
  then show ?thesis
    using assms
    by (simp add: plot_def Let_def split_def update_axis_limits_def then_do_def ok_def raise_def
        connect_events_frame draw_def)
qed

lemma zoom_result:
  fixes f :: "'x figure" and tk :: "'x env" and bbox :: bbox and factor :: real
  assumes vb: "view_bbox f = Some bbox" and a: "ax f = Some a"
  defines "nb \<equiv> (((fst (snd bbox) + fst (fst bbox)) / 2 - (fst (snd bbox) - fst (fst bbox)) / 2 * factor,
                  (snd (snd bbox) + snd (fst bbox)) / 2 - (snd (snd bbox) - snd (fst bbox)) / 2 * factor),
                 ((fst (snd bbox) + fst (fst bbox)) / 2 + (fst (snd bbox) - fst (fst bbox)) / 2 * factor,
                  (snd (snd bbox) + snd (fst bbox)) / 2 + (snd (snd bbox) - snd (fst bbox)) / 2 * factor))"
  defines "b \<equiv> (if do_scale_bounds f then scale_bounds tk (sys_bbox f) (oversize_factor f) else nb)"
  shows "snd (zoom tk factor f) = None \<and> view_bbox (fst (zoom tk factor f)) = Some b
         \<and> ax (fst (zoom tk factor f)) =
             Some (draw_axes tk (header f) (x_label f) (y_label f) (do_draw_axes f)
                     (ax_set_facecolor tk
                        (draw_frame tk (do_draw_frame f)
                           (set_ylim tk (snd (fst b)) (snd (snd b))
                              (set_xlim tk (fst (fst b)) (fst (snd b))
                                 (set_aspect tk (aspect f)
                                    (snd (add_artists (artists f) (store f, cla a)))))))))
         \<and> draws (canvas (fst (zoom tk factor f))) = Suc (draws (canvas f))"
proof -
  define g where "g = f\<lparr>view_bbox := Some nb,
      ax := Some (set_ylim tk (snd (fst nb)) (snd (snd nb)) (set_xlim tk (fst (fst nb)) (fst (snd nb)) a))\<rparr>"
  have s: "set_view_bbox tk (Some nb) f = (g, None)"
    using a by (simp add: set_view_bbox_def update_axis_limits_def ok_def Let_def g_def)
  have z: "zoom tk factor f = plot tk g"
    using vb s by (simp add: zoom_def Let_def then_do_def nb_def)
  have c: "cla (set_ylim tk (snd (fst nb)) (snd (snd nb)) (set_xlim tk (fst (fst nb)) (fst (snd nb)) a)) = cla a"
    by (simp add: cla_const)
  have "(if do_scale_bounds g
            then Some (scale_bounds tk (sys_bbox g) (oversize_factor g))
            else view_bbox g) = Some b"
    by (simp add: g_def b_def)
  from plot_ok [OF this] show ?thesis
    unfolding z by (simp add: g_def c)
qed

text \<open>
  Claim C4, as amended. On a plotted figure with a view box, \<^verbatim>\<open>zoom(factor)\<close> raises
  nothing and asks for one redraw. When \<^verbatim>\<open>do_scale_bounds\<close> is off, the view box is
  replaced by the box with the same centre whose half-widths in x and y are those of the old
  box multiplied by the factor, and the re-plot passes the corners of the new box to
  \<^verbatim>\<open>set_xlim\<close> and \<^verbatim>\<open>set_ylim\<close> of the cleared axes, after \<^verbatim>\<open>set_aspect\<close> and before
  the frame, the background and the axis decorations are drawn. When \<^verbatim>\<open>do_scale_bounds\<close>
  is on, the re-plot replaces the view box by \<^verbatim>\<open>scale_bounds(sys_bbox, oversize_factor)\<close>,
  whatever the factor, and passes the corners of that box instead. The limits the toolkit
  gives the axes in the end are not stated. \<^verbatim>\<open>zoom_in\<close> is the zoom by 0.8,
  \<^verbatim>\<open>zoom_out\<close> by 1.2.
\<close>

theorem zoom_scales_view_bbox:
  fixes f :: "'x figure" and tk :: "'x env" and bbox :: bbox and factor :: real
  assumes vb: "view_bbox f = Some bbox" and a: "ax f = Some a"
  shows "snd (zoom tk factor f) = None
       \<and> draws (canvas (fst (zoom tk factor f))) = Suc (draws (canvas f))
       \<and> (\<not> do_scale_bounds f \<longrightarrow>
            (\<exists>nb. view_bbox (fst (zoom tk factor f)) = Some nb
               \<and> (fst (snd nb) + fst (fst nb)) / 2 = (fst (snd bbox) + fst (fst bbox)) / 2
               \<and> (snd (snd nb) + snd (fst nb)) / 2 = (snd (snd bbox) + snd (fst bbox)) / 2
               \<and> (fst (snd nb) - fst (fst nb)) / 2 = factor * ((fst (snd bbox) - fst (fst bbox)) / 2)
               \<and> (snd (snd nb) - snd (fst nb)) / 2 = factor * ((snd (snd bbox) - snd (fst bbox)) / 2)
               \<and> ax (fst (zoom tk factor f)) =
                   Some (draw_axes tk (header f) (x_label f) (y_label f) (do_draw_axes f)
                           (ax_set_facecolor tk
                              (draw_frame tk (do_draw_frame f)
                                 (set_ylim tk (snd (fst nb)) (snd (snd nb))
                                    (set_xlim tk (fst (fst nb)) (fst (snd nb))
                                       (set_aspect tk (aspect f)
                                          (snd (add_artists (artists f) (store f, cla a)))))))))))
       \<and> (do_scale_bounds f \<longrightarrow>
            (\<exists>sb. sb = scale_bounds tk (sys_bbox f) (oversize_factor f)
               \<and> view_bbox (fst (zoom tk factor f)) = Some sb
               \<and> ax (fst (zoom tk factor f)) =
                   Some (draw_axes tk (header f) (x_label f) (y_label f) (do_draw_axes f)
                           (ax_set_facecolor tk
                              (draw_frame tk (do_draw_frame f)
                                 (set_ylim tk (snd (fst sb)) (snd (snd sb))
                                    (set_xlim tk (fst (fst sb)) (fst (snd sb))
                                       (set_aspect tk (aspect f)
                                          (snd (add_artists (artists f) (store f, cla a)))))))))))
       \<and> zoom_in tk f = zoom tk 0.8 f \<and> zoom_out tk f = zoom tk 1.2 f"
proof -
  note r = zoom_result [OF vb a, of tk factor]
  have p1: "snd (zoom tk factor f) = None"
    and p2: "draws (canvas (fst (zoom tk factor f))) = Suc (draws (canvas f))"
    using r by simp_all
  have p3: "\<exists>nb. view_bbox (fst (zoom tk factor f)) = Some nb
               \<and> (fst (snd nb) + fst (fst nb)) / 2 = (fst (snd bbox) + fst (fst bbox)) / 2
               \<and> (snd (snd nb) + snd (fst nb)) / 2 = (snd (snd bbox) + snd (fst bbox)) / 2
               \<and> (fst (snd nb) - fst (fst nb)) / 2 = factor * ((fst (snd bbox) - fst (fst bbox)) / 2)
               \<and> (snd (snd nb) - snd (fst nb)) / 2 = factor * ((snd (snd bbox) - snd (fst bbox)) / 2)
               \<and> ax (fst (zoom tk factor f)) =
                   Some (draw_axes tk (header f) (x_label f) (y_label f) (do_draw_axes f)
                           (ax_set_facecolor tk
                              (draw_frame tk (do_draw_frame f)
                                 (set_ylim tk (snd (fst nb)) (snd (snd nb))
                                    (set_xlim tk (fst (fst nb)) (fst (snd nb))
                                       (set_aspect tk (aspect f)
                                          (snd (add_artists (artists f) (store f, cla a)))))))))"
    if "\<not> do_scale_bounds f"
    using r that by (simp add: field_simps)
  have p4: "\<exists>sb. sb = scale_bounds tk (sys_bbox f) (oversize_factor f)
               \<and> view_bbox (fst (zoom tk factor f)) = Some sb
               \<and> ax (fst (zoom tk factor f)) =
                   Some (draw_axes tk (header f) (x_label f) (y_label f) (do_draw_axes f)
                           (ax_set_facecolor tk
                              (draw_frame tk (do_draw_frame f)
                                 (set_ylim tk (snd (fst sb)) (snd (snd sb))
                                    (set_xlim tk (fst (fst sb)) (fst (snd sb))
                                       (set_aspect tk (aspect f)
                                          (snd (add_artists (artists f) (store f, cla a)))))))))"
    if "do_scale_bounds f"
    using r that by simp
  have p5: "zoom_in tk f = zoom tk 0.8 f \<and> zoom_out tk f = zoom tk 1.2 f"
    by (simp add: zoom_in_def zoom_out_def)
  from p1 p2 p3 p4 p5 show ?thesis by blast
qed

text \<open>
  The example figure: the view box from (0, 0) to (10, 20), zoomed in, is the box from
  (1, 2) to (9, 18).
\<close>

theorem zoom_scales_view_bbox_witness:
  "view_bbox example_figure = Some ((0, 0), (10, 20))
   \<and> snd (zoom_in example_env example_figure) = None
   \<and> view_bbox (fst (zoom_in example_env example_figure)) = Some ((1, 2), (9, 18))"
proof -
  have vb: "view_bbox example_figure = Some ((0, 0), (10, 20))"
    by (simp add: example_figure_def)
  have a: "ax example_figure = Some \<lparr>xlim = (0, 10), ylim = (0, 20), children = [0, 1, 2]\<rparr>"
    by (simp add: example_figure_def)
  have d: "\<not> do_scale_bounds example_figure"
    by (simp add: example_figure_def)
  note t = zoom_scales_view_bbox [OF vb a, of example_env "0.8"]
  note zi = t [THEN conjunct2, THEN conjunct2, THEN conjunct2, THEN conjunct2, THEN conjunct1]
  note ok = t [THEN conjunct1]
  note c = t [THEN conjunct2, THEN conjunct2, THEN conjunct1, rule_format, OF d]
  from c obtain nb where v: "view_bbox (fst (zoom example_env 0.8 example_figure)) = Some nb"
    and cx: "(fst (snd nb) + fst (fst nb)) / 2 = 5" and cy: "(snd (snd nb) + snd (fst nb)) / 2 = 10"
    and hx: "(fst (snd nb) - fst (fst nb)) / 2 = 4" and hy: "(snd (snd nb) - snd (fst nb)) / 2 = 8"
    by auto
  have "fst (fst nb) = 1" and "fst (snd nb) = 9" and "snd (fst nb) = 2" and "snd (snd nb) = 18"
    using cx cy hx hy by simp_all
  then have nb: "nb = ((1, 2), (9, 18))"
    by (simp add: prod_eq_iff)
  show ?thesis
    using vb v ok unfolding zi nb by simp
qed

text \<open>
  Claim C4 as stated fails when \<^verbatim>\<open>do_scale_bounds\<close> is on: zooming the example figure in
  or out gives the same view box, the scaled system box from (-1, -1) to (11, 21), whose
  half-widths 6 and 11 are not 0.8 or 1.2 times the half-widths 5 and 10 of the old box.
\<close>

theorem zoom_with_scale_bounds_counterexample:
  "do_scale_bounds (example_figure\<lparr>do_scale_bounds := True\<rparr>)
   \<and> view_bbox (example_figure\<lparr>do_scale_bounds := True\<rparr>) = Some ((0, 0), (10, 20))
   \<and> view_bbox (fst (zoom_in example_env (example_figure\<lparr>do_scale_bounds := True\<rparr>)))
       = Some ((- 1, - 1), (11, 21))
   \<and> view_bbox (fst (zoom_out example_env (example_figure\<lparr>do_scale_bounds := True\<rparr>)))
       = Some ((- 1, - 1), (11, 21))"
proof -
  have vb: "view_bbox (example_figure\<lparr>do_scale_bounds := True\<rparr>) = Some ((0, 0), (10, 20))"
    by (simp add: example_figure_def)
  have a: "ax (example_figure\<lparr>do_scale_bounds := True\<rparr>)
             = Some \<lparr>xlim = (0, 10), ylim = (0, 20), children = [0, 1, 2]\<rparr>"
    by (simp add: example_figure_def)
  have sb: "scale_bounds example_env (sys_bbox example_figure) (oversize_factor example_figure)
              = ((- 1, - 1), (11, 21))"
    by (simp add: example_env_def example_figure_def example_scale_bounds_def Let_def)
  note r1 = zoom_result [OF vb a, of example_env "0.8", THEN conjunct2, THEN conjunct1]
  note r2 = zoom_result [OF vb a, of example_env "1.2", THEN conjunct2, THEN conjunct1]
  show ?thesis
    using r1 r2 vb by (simp add: zoom_in_def zoom_out_def sb)
qed

subsection \<open>The mouse handlers of the interactive figure\<close>

lemmas outcome_defs = then_do_def ok_def raise_def

lemma unhilite_current_frame:
  "do_action (fst (unhilite_current f)) = do_action f
   \<and> ax (fst (unhilite_current f)) = ax f
   \<and> save_do_scale_bounds (fst (unhilite_current f)) = save_do_scale_bounds f
   \<and> hilited (fst (unhilite_current f)) = hilited f
   \<and> selected (fst (unhilite_current f)) = selected f
   \<and> view_bbox (fst (unhilite_current f)) = view_bbox f"
  by (simp add: unhilite_current_def outcome_defs split: option.splits sum.splits)

lemma hilite_next_frame:
  "do_action (hilite_next n f) = do_action f
   \<and> ax (hilite_next n f) = ax f
   \<and> save_do_scale_bounds (hilite_next n f) = save_do_scale_bounds f
   \<and> hilited (hilite_next n f) = hilited f
   \<and> selected (hilite_next n f) = selected f
   \<and> view_bbox (hilite_next n f) = view_bbox f"
  by (simp add: hilite_next_def split: option.splits)

lemma on_motion_unselected_frame:
  assumes "selected f = None"
  shows "do_action (fst (on_motion tk ev f)) = do_action f
   \<and> ax (fst (on_motion tk ev f)) = ax f
   \<and> save_do_scale_bounds (fst (on_motion tk ev f)) = save_do_scale_bounds f
   \<and> selected (fst (on_motion tk ev f)) = None
   \<and> view_bbox (fst (on_motion tk ev f)) = view_bbox f"
proof (cases "find_artists_at_location tk ev f")
  case (Inl e)
  then show ?thesis using assms by (simp add: on_motion_def outcome_defs)
next
  case (Inr arts)
  show ?thesis
  proof (cases "snd (unhilite_current f)")
    case None
    then show ?thesis
      using assms Inr unhilite_current_frame [of f]
      by (simp add: on_motion_def outcome_defs Let_def hilite_next_frame)
  next
    case (Some e)
    then show ?thesis
      using assms Inr unhilite_current_frame [of f]
      by (simp add: on_motion_def outcome_defs Let_def)
  qed
qed

lemma pan_on_drag_frame:
  "do_action (fst (pan_on_drag tk ev f)) = do_action f
   \<and> (ax f \<noteq> None \<longrightarrow> ax (fst (pan_on_drag tk ev f)) \<noteq> None)
   \<and> save_do_scale_bounds (fst (pan_on_drag tk ev f)) = save_do_scale_bounds f
   \<and> selected (fst (pan_on_drag tk ev f)) = selected f
   \<and> hilited (fst (pan_on_drag tk ev f)) = hilited f
   \<and> store (fst (pan_on_drag tk ev f)) = store f"
  by (simp add: pan_on_drag_def outcome_defs Let_def split: option.splits)

lemma on_motion_pan_frame:
  assumes "do_action f = PanCommand" and "ax f \<noteq> None"
  shows "do_action (fst (on_motion tk ev f)) = PanCommand
   \<and> ax (fst (on_motion tk ev f)) \<noteq> None
   \<and> save_do_scale_bounds (fst (on_motion tk ev f)) = save_do_scale_bounds f"
proof (cases "selected f")
  case None
  then show ?thesis
    using on_motion_unselected_frame [of f tk ev] assms by simp
next
  case (Some sel)
  have c: "call_do_action tk ev t ''drag'' f = pan_on_drag tk ev f" for t
    using assms by (simp add: call_do_action_def do_command_action_def)
  show ?thesis
    using Some assms pan_on_drag_frame [of tk ev f]
    by (simp add: on_motion_def c outcome_defs split: option.splits)
qed

lemma on_press_pan_frame:
  assumes "do_action f = PanCommand" and "ax f \<noteq> None"
  shows "do_action (fst (on_press tk ev f)) = PanCommand
   \<and> ax (fst (on_press tk ev f)) \<noteq> None
   \<and> save_do_scale_bounds (fst (on_press tk ev f)) = Some (do_scale_bounds f)"
  using assms
  by (auto simp add: on_press_def call_do_action_def do_command_action_def pan_on_press_def
      outcome_defs Let_def)

lemma on_release_pan:
  assumes "do_action f = PanCommand" and "ax f = Some a"
  shows "ax (fst (on_release tk ev f)) = Some (end_pan tk a)
   \<and> view_bbox (fst (on_release tk ev f)) =
       Some ((fst (get_xbound (end_pan tk a)), fst (get_ybound (end_pan tk a))),
             (snd (get_xbound (end_pan tk a)), snd (get_ybound (end_pan tk a))))
   \<and> (save_do_scale_bounds f \<noteq> None \<longrightarrow> snd (on_release tk ev f) = None)"
  using assms
  by (auto simp add: on_release_def call_do_action_def do_command_action_def pan_on_release_def
      outcome_defs Let_def split_def action_complete_def split: option.splits)


lemma run_append: "run tk (ms @ ns) f = run tk ns (run tk ms f)"
  by (induction ms arbitrary: f) simp_all

lemma run_motions_pan:
  assumes "do_action f = PanCommand" and "ax f \<noteq> None"
  shows "do_action (run tk (map Motion ds) f) = PanCommand
   \<and> ax (run tk (map Motion ds) f) \<noteq> None
   \<and> save_do_scale_bounds (run tk (map Motion ds) f) = save_do_scale_bounds f"
  using assms
proof (induction ds arbitrary: f)
  case Nil
  then show ?case by simp
next
  case (Cons d ds)
  note m = on_motion_pan_frame [OF Cons.prems, of tk d]
  have "do_action (run tk (map Motion ds) (fst (on_motion tk d f))) = PanCommand
   \<and> ax (run tk (map Motion ds) (fst (on_motion tk d f))) \<noteq> None
   \<and> save_do_scale_bounds (run tk (map Motion ds) (fst (on_motion tk d f)))
       = save_do_scale_bounds (fst (on_motion tk d f))"
    using m by (intro Cons.IH) simp_all
  then show ?case
    using m by (simp add: handle_def)
qed

text \<open>
  Claim C6. A pan gesture on a plotted figure with a \<^verbatim>\<open>PanAction\<close> registered: a press,
  any number of motions, a release, each handled by the figure's \<^verbatim>\<open>on_press\<close>,
  \<^verbatim>\<open>on_motion\<close> and \<^verbatim>\<open>on_release\<close>. The release raises nothing, ends the pan on the
  axes the press and the motions left, and sets \<^verbatim>\<open>view_bbox\<close> to
  \<^verbatim>\<open>[[x_min, y_min], [x_max, y_max]]\<close>, the x and y bounds of the axes after the pan.
\<close>

theorem pan_release_sets_view_bbox:
  assumes "do_action f = PanCommand" and "ax f \<noteq> None"
  shows "\<exists>a a'. ax (run tk (Press e0 # map Motion ds) f) = Some a
           \<and> a' = end_pan tk a
           \<and> snd (handle tk (Release e1) (run tk (Press e0 # map Motion ds) f)) = None
           \<and> ax (run tk (Press e0 # map Motion ds @ [Release e1]) f) = Some a'
           \<and> view_bbox (run tk (Press e0 # map Motion ds @ [Release e1]) f) =
               Some ((fst (get_xbound a'), fst (get_ybound a')),
                     (snd (get_xbound a'), snd (get_ybound a')))"
proof -
  define g where "g = fst (on_press tk e0 f)"
  define h where "h = run tk (map Motion ds) g"
  note p = on_press_pan_frame [OF assms, of tk e0]
  have g: "do_action g = PanCommand" "ax g \<noteq> None" "save_do_scale_bounds g \<noteq> None"
    using p by (simp_all add: g_def)
  note m = run_motions_pan [OF g(1) g(2), of tk ds]
  have h: "do_action h = PanCommand" "save_do_scale_bounds h \<noteq> None"
    using m g(3) by (simp_all add: h_def)
  obtain a where a: "ax h = Some a"
    using m by (auto simp: h_def)
  note r = on_release_pan [OF h(1) a, of tk e1]
  have r1: "run tk (Press e0 # map Motion ds) f = h"
    by (simp add: h_def g_def handle_def)
  have "run tk ((Press e0 # map Motion ds) @ [Release e1]) f = run tk [Release e1] h"
    unfolding run_append r1 ..
  moreover have "run tk [Release e1] h = fst (on_release tk e1 h)"
    by (simp add: handle_def)
  ultimately have r2: "run tk (Press e0 # map Motion ds @ [Release e1]) f = fst (on_release tk e1 h)"
    by simp
  show ?thesis
    apply (rule exI [of _ a], rule exI [of _ "end_pan tk a"])
    unfolding r1 r2
    using a r h(2) by (simp add: handle_def)
qed

text \<open>
  The example figure with the polygon hilited: a press, a drag to pixel (2, 3) and a release
  move the limits from (0, 10) and (0, 20) to (-2, 8) and (-3, 17).
\<close>

theorem pan_release_sets_view_bbox_witness:
  "ax (run example_env [Press (mouse_at 1 1), Motion (mouse_at 2 3), Release (mouse_at 2 3)]
         ((register_pan None example_figure)\<lparr>hilited := Some (SelectInfo 0 None)\<rparr>))
     = Some \<lparr>xlim = (- 2, 8), ylim = (- 3, 17), children = [0, 1, 2]\<rparr>
   \<and> view_bbox (run example_env [Press (mouse_at 1 1), Motion (mouse_at 2 3), Release (mouse_at 2 3)]
         ((register_pan None example_figure)\<lparr>hilited := Some (SelectInfo 0 None)\<rparr>))
     = Some ((- 2, - 3), (8, 17))"
proof -
  define f0 where "f0 = (register_pan None example_figure)\<lparr>hilited := Some (SelectInfo 0 None)\<rparr>"
  have h1: "do_action f0 = PanCommand"
    by (simp add: f0_def register_pan_def)
  have h2: "ax f0 \<noteq> None"
    by (simp add: f0_def register_pan_def example_figure_def)
  have before: "ax (run example_env (Press (mouse_at 1 1) # map Motion [mouse_at 2 3]) f0)
          = Some \<lparr>xlim = (- 2, 8), ylim = (- 3, 17), children = [0, 1, 2]\<rparr>"
    by (simp add: f0_def register_pan_def example_figure_def example_env_def example_store_def
        handle_def on_press_def on_motion_def call_do_action_def do_command_action_def
        pan_on_press_def pan_on_drag_def outcome_defs Let_def mouse_at_def create_polygon_def draw_def)
  from pan_release_sets_view_bbox [OF h1 h2, of example_env "mouse_at 1 1" "[mouse_at 2 3]" "mouse_at 2 3"]
  obtain a a' where a: "ax (run example_env (Press (mouse_at 1 1) # map Motion [mouse_at 2 3]) f0) = Some a"
    and a': "a' = end_pan example_env a"
    and ax': "ax (run example_env (Press (mouse_at 1 1) # map Motion [mouse_at 2 3] @ [Release (mouse_at 2 3)]) f0) = Some a'"
    and vb: "view_bbox (run example_env (Press (mouse_at 1 1) # map Motion [mouse_at 2 3] @ [Release (mouse_at 2 3)]) f0) =
               Some ((fst (get_xbound a'), fst (get_ybound a')), (snd (get_xbound a'), snd (get_ybound a')))"
    by blast
  have "a = \<lparr>xlim = (- 2, 8), ylim = (- 3, 17), children = [0, 1, 2]\<rparr>"
    using a before by simp
  then have e: "a' = \<lparr>xlim = (- 2, 8), ylim = (- 3, 17), children = [0, 1, 2]\<rparr>"
    using a' by (simp add: example_env_def)
  have l: "Press (mouse_at 1 1) # map Motion [mouse_at 2 3] @ [Release (mouse_at 2 3)]
             = [Press (mouse_at 1 1), Motion (mouse_at 2 3), Release (mouse_at 2 3)]"
    by simp
  show ?thesis
    using ax' vb unfolding l e f0_def by (simp add: get_xbound_def get_ybound_def)
qed

subsection \<open>Hiliting the artist under the cursor\<close>

lemma set_hit_artists:
  "set (hit_artists tk st ev cs) =
     {SelectInfo i (snd (contains tk i ev)) | i.
        i \<in> set cs \<and> shape (st i) \<noteq> None \<and> fst (contains tk i ev)}"
  by (induction cs) (auto simp: split_def)

lemma set_sorted_reverse: "set (sorted_reverse k xs) = set xs"
  by (simp add: sorted_reverse_def)

lemma sorted_reverse_descending: "sorted (rev (map k (sorted_reverse k xs)))"
  by (simp add: sorted_reverse_def rev_map)

lemma sorted_rev_hd_greatest:
  fixes zs :: "real list"
  assumes "sorted (rev zs)" and "z \<in> set zs"
  shows "z \<le> hd zs"
proof (cases zs)
  case Nil
  then show ?thesis using assms by simp
next
  case (Cons y ys)
  then show ?thesis
    using assms by (auto simp: sorted_append)
qed

lemma sorted_reverse_hd_greatest:
  assumes "s \<in> set (sorted_reverse k xs)"
  shows "k s \<le> k (hd (sorted_reverse k xs))"
proof -
  let ?ys = "sorted_reverse k xs"
  have ne: "?ys \<noteq> []" using assms by auto
  have "k s \<in> set (map k ?ys)" using assms by simp
  then have "k s \<le> hd (map k ?ys)"
    using sorted_reverse_descending [of k xs] by (intro sorted_rev_hd_greatest)
  then show ?thesis
    using ne by (simp add: hd_map)
qed

lemma on_motion_same:
  assumes "selected f = None" and "find_artists_at_location tk ev f = Inr arts"
    and "map_option artist_of (if arts = [] then None else Some (hd arts)) = map_option artist_of (hilited f)"
  shows "on_motion tk ev f = (f, None)"
proof (cases "arts = []")
  case True
  then show ?thesis
    using assms by (simp add: on_motion_def outcome_defs Let_def)
next
  case False
  then show ?thesis
    using assms by (cases "hilited f") (simp_all add: on_motion_def outcome_defs Let_def)
qed

lemma on_motion_change:
  assumes "selected f = None" and "find_artists_at_location tk ev f = Inr arts"
    and "nxt = (if arts = [] then None else Some (hd arts))"
    and "map_option artist_of nxt \<noteq> map_option artist_of (hilited f)"
    and "unhilite_current f = (g, None)"
  shows "on_motion tk ev f = ((hilite_next nxt g)\<lparr>hilited := nxt\<rparr>, None)"
  using assms by (auto simp add: on_motion_def outcome_defs Let_def)


text \<open>
  Claim C3. A motion event while no artist is selected. \<^verbatim>\<open>find_artists_at_location\<close>
  returns the artists on the axes that carry a shape and contain the cursor, each with the
  details \<^verbatim>\<open>contains\<close> gave, in descending z-order, so that the first has the highest
  z-order of all. \<open>nxt\<close> is that first hit, or \<^verbatim>\<open>None\<close> when there is none. When its
  artist is the one hilited now, \<^verbatim>\<open>on_motion\<close> changes nothing. Otherwise the artist
  hilited now, if any, is unhighlighted, the artist of \<open>nxt\<close>, if any, is highlighted, no
  other artist changes, and \<^verbatim>\<open>self.hilited\<close> becomes \<open>nxt\<close>.
\<close>

theorem on_motion_hilites_top_artist:
  assumes sel: "selected f = None"
    and fa: "find_artists_at_location tk ev f = Inr arts"
    and nx: "nxt = (if arts = [] then None else Some (hd arts))"
  shows "(\<exists>a. ax f = Some a
            \<and> set arts = {SelectInfo i (snd (contains tk i ev)) | i.
                  i \<in> set (children a) \<and> shape (store f i) \<noteq> None \<and> fst (contains tk i ev)})
       \<and> sorted (rev (map (\<lambda>s. zorder (store f (artist_of s))) arts))
       \<and> (\<forall>s \<in> set arts. zorder (store f (artist_of s)) \<le> zorder (store f (artist_of (hd arts))))
       \<and> (map_option artist_of nxt = map_option artist_of (hilited f) \<longrightarrow>
            on_motion tk ev f = (f, None))
       \<and> (map_option artist_of nxt \<noteq> map_option artist_of (hilited f) \<and> hilited f = None \<longrightarrow>
            snd (on_motion tk ev f) = None
            \<and> hilited (fst (on_motion tk ev f)) = nxt
            \<and> store (fst (on_motion tk ev f)) =
                (case nxt of
                   None \<Rightarrow> store f
                 | Some n \<Rightarrow> (store f)(artist_of n := highlight (store f (artist_of n)))))
       \<and> (\<forall>h p. map_option artist_of nxt \<noteq> map_option artist_of (hilited f)
              \<and> hilited f = Some h \<and> unhighlight (store f (artist_of h)) = Inr p \<longrightarrow>
            snd (on_motion tk ev f) = None
            \<and> hilited (fst (on_motion tk ev f)) = nxt
            \<and> store (fst (on_motion tk ev f)) =
                (case nxt of
                   None \<Rightarrow> (store f)(artist_of h := p)
                 | Some n \<Rightarrow> ((store f)(artist_of h := p))
                               (artist_of n := highlight (store f (artist_of n)))))"
  (is "?P1 \<and> ?P2 \<and> ?P3 \<and> ?P4 \<and> ?P5 \<and> ?P6")
proof -
  obtain a where a: "ax f = Some a"
    and arts: "arts = sorted_reverse (\<lambda>s. zorder (store f (artist_of s)))
                        (hit_artists tk (store f) ev (children a))"
    using fa by (auto simp: find_artists_at_location_def split: option.splits)
  have p1: ?P1
    using a by (simp add: arts set_sorted_reverse set_hit_artists)
  have p2: ?P2
    unfolding arts by (rule sorted_reverse_descending)
  have p3: ?P3
    unfolding arts by (intro ballI sorted_reverse_hd_greatest)
  have p4: ?P4
    using on_motion_same [OF sel fa] nx by simp
  have p5: ?P5
  proof
    assume h: "map_option artist_of nxt \<noteq> map_option artist_of (hilited f) \<and> hilited f = None"
    then have u: "unhilite_current f = (f, None)"
      by (simp add: unhilite_current_def ok_def)
    have d: "map_option artist_of nxt \<noteq> map_option artist_of (hilited f)"
      using h by blast
    have "on_motion tk ev f = ((hilite_next nxt f)\<lparr>hilited := nxt\<rparr>, None)"
      by (rule on_motion_change [OF sel fa nx d u])
    then show "snd (on_motion tk ev f) = None
            \<and> hilited (fst (on_motion tk ev f)) = nxt
            \<and> store (fst (on_motion tk ev f)) =
                (case nxt of
                   None \<Rightarrow> store f
                 | Some n \<Rightarrow> (store f)(artist_of n := highlight (store f (artist_of n))))"
      by (simp add: hilite_next_def split: option.splits)
  qed
  have p6: ?P6
  proof (intro allI impI)
    fix h p
    assume h: "map_option artist_of nxt \<noteq> map_option artist_of (hilited f)
              \<and> hilited f = Some h \<and> unhighlight (store f (artist_of h)) = Inr p"
    define g where "g = f\<lparr>store := (store f)(artist_of h := p), canvas := draw (canvas f)\<rparr>"
    have u: "unhilite_current f = (g, None)"
      using h by (simp add: unhilite_current_def ok_def g_def)
    have ne: "artist_of n \<noteq> artist_of h" if "nxt = Some n" for n
      using h that by auto
    have d: "map_option artist_of nxt \<noteq> map_option artist_of (hilited f)"
      using h by blast
    have "on_motion tk ev f = ((hilite_next nxt g)\<lparr>hilited := nxt\<rparr>, None)"
      by (rule on_motion_change [OF sel fa nx d u])
    then show "snd (on_motion tk ev f) = None
            \<and> hilited (fst (on_motion tk ev f)) = nxt
            \<and> store (fst (on_motion tk ev f)) =
                (case nxt of
                   None \<Rightarrow> (store f)(artist_of h := p)
                 | Some n \<Rightarrow> ((store f)(artist_of h := p))
                               (artist_of n := highlight (store f (artist_of n))))"
      using ne by (simp add: hilite_next_def g_def split: option.splits)
  qed
  from p1 p2 p3 p4 p5 p6 show ?thesis by blast
qed

lemmas example_figure_defs = example_figure_def example_env_def example_store_def mouse_at_def
  create_polygon_def create_polyline_def create_vertex_def

text \<open>
  The example figure with the cursor at pixel (7, 7), over all three artists: the polyline,
  first of the two of z-order 2, is hilited.
\<close>

theorem on_motion_hilites_top_artist_witness:
  "find_artists_at_location example_env (mouse_at 7 7) example_figure
     = Inr [SelectInfo 1 None, SelectInfo 2 None, SelectInfo 0 None]
   \<and> snd (on_motion example_env (mouse_at 7 7) example_figure) = None
   \<and> hilited (fst (on_motion example_env (mouse_at 7 7) example_figure)) = Some (SelectInfo 1 None)
   \<and> store (fst (on_motion example_env (mouse_at 7 7) example_figure))
       = example_store(1 := highlight (example_store 1))"
proof -
  have sel: "selected example_figure = None"
    by (simp add: example_figure_def)
  have fa: "find_artists_at_location example_env (mouse_at 7 7) example_figure
              = Inr [SelectInfo 1 None, SelectInfo 2 None, SelectInfo 0 None]"
    by (simp add: find_artists_at_location_def sorted_reverse_def example_figure_defs)
  have nx: "Some (SelectInfo 1 None)
              = (if [SelectInfo 1 None, SelectInfo 2 None, SelectInfo 0 None] = [] then None
                 else Some (hd [SelectInfo 1 None, SelectInfo 2 None, SelectInfo 0 None]))"
    by simp
  have h: "map_option artist_of (Some (SelectInfo 1 None)) \<noteq> map_option artist_of (hilited example_figure)
           \<and> hilited example_figure = None"
    by (simp add: example_figure_def)
  note t = on_motion_hilites_top_artist [OF sel fa nx]
  note c = t [THEN conjunct2, THEN conjunct2, THEN conjunct2, THEN conjunct2, THEN conjunct1,
      rule_format, OF h]
  have st: "store example_figure = example_store"
    by (simp add: example_figure_def)
  from c fa show ?thesis
    unfolding st by simp
qed

subsection \<open>The highlight invariant\<close>

lemma call_do_action_frame:
  "store (fst (call_do_action tk ev t k f)) = store f
   \<and> hilited (fst (call_do_action tk ev t k f)) = hilited f
   \<and> selected (fst (call_do_action tk ev t k f)) = selected f"
  by (cases "do_action f")
     (simp_all add: call_do_action_def do_shape_action_def do_command_action_def pan_on_press_def
        pan_on_drag_def pan_on_release_def outcome_defs Let_def split_def
        split: option.splits)

lemma on_press_frame:
  "store (fst (on_press tk ev f)) = store f \<and> hilited (fst (on_press tk ev f)) = hilited f"
  using call_do_action_frame [of tk ev "hilited f" "''press''"]
  by (simp add: on_press_def Let_def)

lemma on_release_frame:
  "store (fst (on_release tk ev f)) = store f \<and> hilited (fst (on_release tk ev f)) = hilited f"
  using call_do_action_frame [of tk ev "selected f" "''release''" f]
  by (simp add: on_release_def outcome_defs Let_def action_complete_def split: option.splits)

lemma on_motion_selected_frame:
  assumes "selected f \<noteq> None"
  shows "store (fst (on_motion tk ev f)) = store f \<and> hilited (fst (on_motion tk ev f)) = hilited f"
  using assms call_do_action_frame [of tk ev "selected f" "''drag''" f]
  by (auto simp add: on_motion_def outcome_defs split: option.splits)

lemma unhighlight_clears:
  "unhighlight p = Inr q \<Longrightarrow> unhilite q = None"
  by (cases "kind p")
     (auto simp add: unhighlight_def unhighlight_polygon_def unhighlight_polyline_def
        unhighlight_vertex_def split: option.splits saved_style.splits)

lemma highlight_sets: "unhilite (highlight p) \<noteq> None"
  by (cases "kind p")
     (simp_all add: highlight_def highlight_polygon_def highlight_polyline_def
        highlight_vertex_def Let_def)

lemma highlight_sets_some: "\<exists>s. unhilite (highlight p) = Some s"
  using highlight_sets [of p] by auto

lemma on_motion_unselected_inv:
  assumes sel: "selected f = None"
    and inv: "\<forall>i. highlighted f i = (map_option artist_of (hilited f) = Some i)"
  shows "\<forall>i. highlighted (fst (on_motion tk ev f)) i
              = (map_option artist_of (hilited (fst (on_motion tk ev f))) = Some i)"
proof (cases "find_artists_at_location tk ev f")
  case (Inl e)
  then show ?thesis
    using sel inv by (simp add: on_motion_def outcome_defs)
next
  case (Inr arts)
  define nxt where "nxt = (if arts = [] then None else Some (hd arts))"
  show ?thesis
  proof (cases "map_option artist_of nxt = map_option artist_of (hilited f)")
    case True
    then have "on_motion tk ev f = (f, None)"
      unfolding nxt_def by (rule on_motion_same [OF sel Inr])
    then show ?thesis using inv by simp
  next
    case False
    show ?thesis
    proof (cases "hilited f")
      case None
      then have u: "unhilite_current f = (f, None)"
        by (simp add: unhilite_current_def ok_def)
      have m: "on_motion tk ev f = ((hilite_next nxt f)\<lparr>hilited := nxt\<rparr>, None)"
        by (rule on_motion_change [OF sel Inr nxt_def False u])
      have none: "unhilite (store f i) = None" for i
        using inv None by (simp add: highlighted_def)
      show ?thesis
        unfolding m
        by (cases nxt) (auto simp add: hilite_next_def highlighted_def none highlight_sets highlight_sets_some)
    next
      case (Some h)
      have only: "unhilite (store f i) = None" if "i \<noteq> artist_of h" for i
      proof -
        have "highlighted f i = (Some (artist_of h) = Some i)"
          using inv Some by simp
        then have "\<not> highlighted f i" using that by simp
        then show ?thesis by (simp add: highlighted_def)
      qed
      show ?thesis
      proof (cases "unhighlight (store f (artist_of h))")
        case (Inl e)
        then have "on_motion tk ev f = (f, Some e)"
          using sel Inr False Some
          by (simp add: on_motion_def outcome_defs unhilite_current_def Let_def nxt_def)
        then show ?thesis using inv by simp
      next
        case (Inr p)
        define g where "g = f\<lparr>store := (store f)(artist_of h := p), canvas := draw (canvas f)\<rparr>"
        have u: "unhilite_current f = (g, None)"
          using Some Inr by (simp add: unhilite_current_def ok_def g_def)
        have m: "on_motion tk ev f = ((hilite_next nxt g)\<lparr>hilited := nxt\<rparr>, None)"
          by (rule on_motion_change [OF sel \<open>find_artists_at_location tk ev f = Inr arts\<close> nxt_def False u])
        have p: "unhilite p = None"
          using Inr by (rule unhighlight_clears)
        show ?thesis
          unfolding m
          using only p
          by (cases nxt) (auto simp add: hilite_next_def highlighted_def g_def highlight_sets highlight_sets_some)
      qed
    qed
  qed
qed

lemma handle_inv:
  assumes inv: "\<forall>i. highlighted f i = (map_option artist_of (hilited f) = Some i)"
  shows "\<forall>i. highlighted (fst (handle tk m f)) i
              = (map_option artist_of (hilited (fst (handle tk m f))) = Some i)"
proof (cases m)
  case (Press ev)
  then show ?thesis
    using inv on_press_frame [of tk ev f] by (simp add: handle_def highlighted_def)
next
  case (Motion ev)
  show ?thesis
  proof (cases "selected f")
    case None
    then show ?thesis
      using on_motion_unselected_inv [OF None inv, of tk ev] Motion by (simp add: handle_def)
  next
    case (Some s)
    then have "selected f \<noteq> None" by simp
    from on_motion_selected_frame [OF this, of tk ev] show ?thesis
      using inv Motion by (simp add: handle_def highlighted_def)
  qed
next
  case (Release ev)
  then show ?thesis
    using inv on_release_frame [of tk ev f] by (simp add: handle_def highlighted_def)
qed

lemma run_inv:
  assumes "\<forall>i. highlighted f i = (map_option artist_of (hilited f) = Some i)"
  shows "\<forall>i. highlighted (run tk ms f) i = (map_option artist_of (hilited (run tk ms f)) = Some i)"
  using assms
proof (induction ms arbitrary: f)
  case Nil
  then show ?case by simp
next
  case (Cons m ms)
  from handle_inv [OF Cons.prems, of tk m]
  have "\<forall>i. highlighted (run tk ms (fst (handle tk m f))) i
             = (map_option artist_of (hilited (run tk ms (fst (handle tk m f)))) = Some i)"
    by (rule Cons.IH)
  then show ?case by simp
qed


text \<open>
  Claim C9. Take a figure in which the highlighted artists are exactly the artist that
  \<^verbatim>\<open>self.hilited\<close> refers to (none when it is \<^verbatim>\<open>None\<close>), as in a new figure. After any
  sequence of press, motion and release events the same holds: an artist is highlighted
  exactly when \<^verbatim>\<open>self.hilited\<close> refers to it, so at most one artist is highlighted. While
  an artist is selected, no event changes an artist or \<^verbatim>\<open>self.hilited\<close>. The actions of
  the shapes and the callback \<^verbatim>\<open>on_finished\<close>, which are not part of the sources, work on
  the state outside the figure.
\<close>

theorem highlight_invariant:
  assumes inv: "\<forall>i. highlighted f i = (map_option artist_of (hilited f) = Some i)"
  shows "(\<forall>i. highlighted (run tk ms f) i = (map_option artist_of (hilited (run tk ms f)) = Some i))
       \<and> (\<forall>i j. highlighted (run tk ms f) i \<and> highlighted (run tk ms f) j \<longrightarrow> i = j)
       \<and> (selected f \<noteq> None \<longrightarrow>
            store (fst (handle tk m f)) = store f \<and> hilited (fst (handle tk m f)) = hilited f)"
proof -
  have p1: "\<forall>i. highlighted (run tk ms f) i = (map_option artist_of (hilited (run tk ms f)) = Some i)"
    using inv by (rule run_inv)
  have p2: "\<forall>i j. highlighted (run tk ms f) i \<and> highlighted (run tk ms f) j \<longrightarrow> i = j"
    using p1 by auto
  have p3: "store (fst (handle tk m f)) = store f \<and> hilited (fst (handle tk m f)) = hilited f"
    if s: "selected f \<noteq> None"
  proof (cases m)
    case (Press ev)
    then show ?thesis using on_press_frame [of tk ev f] by (simp add: handle_def)
  next
    case (Motion ev)
    then show ?thesis using on_motion_selected_frame [OF s, of tk ev] by (simp add: handle_def)
  next
    case (Release ev)
    then show ?thesis using on_release_frame [of tk ev f] by (simp add: handle_def)
  qed
  from p1 p2 p3 show ?thesis by blast
qed

lemma on_press_selected: "selected (fst (on_press tk ev f)) = hilited f"
  using call_do_action_frame [of tk ev "hilited f" "''press''"]
  by (simp add: on_press_def Let_def)

text \<open>
  The example figure: the cursor moves over the three artists, the button is pressed, the
  cursor is dragged to where only the polygon is under it, the button is released. The
  polyline is the hilited artist and the only highlighted one.
\<close>

theorem highlight_invariant_witness:
  "hilited (run example_env
      [Motion (mouse_at 7 7), Press (mouse_at 7 7), Motion (mouse_at 15 7), Release (mouse_at 15 7)]
      example_figure) = Some (SelectInfo 1 None)
   \<and> highlighted (run example_env
      [Motion (mouse_at 7 7), Press (mouse_at 7 7), Motion (mouse_at 15 7), Release (mouse_at 15 7)]
      example_figure) 1
   \<and> \<not> highlighted (run example_env
      [Motion (mouse_at 7 7), Press (mouse_at 7 7), Motion (mouse_at 15 7), Release (mouse_at 15 7)]
      example_figure) 0"
proof -
  have h: "\<forall>i. highlighted example_figure i = (map_option artist_of (hilited example_figure) = Some i)"
    by (simp add: highlighted_def example_figure_defs)
  have sel: "selected example_figure = None"
    by (simp add: example_figure_def)
  have fa: "find_artists_at_location example_env (mouse_at 7 7) example_figure
              = Inr [SelectInfo 1 None, SelectInfo 2 None, SelectInfo 0 None]"
    by (simp add: find_artists_at_location_def sorted_reverse_def example_figure_defs)
  have nx: "Some (SelectInfo 1 None)
              = (if [SelectInfo 1 None, SelectInfo 2 None, SelectInfo 0 None] = [] then None
                 else Some (hd [SelectInfo 1 None, SelectInfo 2 None, SelectInfo 0 None]))"
    by simp
  have d: "map_option artist_of (Some (SelectInfo 1 None)) \<noteq> map_option artist_of (hilited example_figure)"
    by (simp add: example_figure_def)
  have u: "unhilite_current example_figure = (example_figure, None)"
    by (simp add: unhilite_current_def ok_def example_figure_def)
  define f1 where "f1 = fst (on_motion example_env (mouse_at 7 7) example_figure)"
  define f2 where "f2 = fst (on_press example_env (mouse_at 7 7) f1)"
  define f3 where "f3 = fst (on_motion example_env (mouse_at 15 7) f2)"
  define f4 where "f4 = fst (on_release example_env (mouse_at 15 7) f3)"
  have r: "run example_env
      [Motion (mouse_at 7 7), Press (mouse_at 7 7), Motion (mouse_at 15 7), Release (mouse_at 15 7)]
      example_figure = f4"
    by (simp add: handle_def f1_def f2_def f3_def f4_def)
  have h1: "hilited f1 = Some (SelectInfo 1 None)"
    unfolding f1_def on_motion_change [OF sel fa nx d u] by simp
  have h2: "hilited f2 = Some (SelectInfo 1 None)" and s2: "selected f2 = Some (SelectInfo 1 None)"
    using on_press_frame [of example_env "mouse_at 7 7" f1]
      on_press_selected [of example_env "mouse_at 7 7" f1] h1
    by (simp_all add: f2_def)
  have "selected f2 \<noteq> None" using s2 by simp
  from on_motion_selected_frame [OF this, of example_env "mouse_at 15 7"]
  have h3: "hilited f3 = Some (SelectInfo 1 None)"
    using h2 by (simp add: f3_def)
  have e: "hilited f4 = Some (SelectInfo 1 None)"
    using on_release_frame [of example_env "mouse_at 15 7" f3] h3 by (simp add: f4_def)
  note t = highlight_invariant [OF h, of example_env
      "[Motion (mouse_at 7 7), Press (mouse_at 7 7), Motion (mouse_at 15 7), Release (mouse_at 15 7)]",
      THEN conjunct1, rule_format, unfolded r e]
  from t [of 1] t [of 0] e show ?thesis
    unfolding r by simp
qed

end
